theory Spec2Isabelle
  imports Complex_Main "HOL-Library.Char_ord" "HOL-Library.List_Lexorder"
begin

section \<open>Data model of BuildUHT.py\<close>

text \<open>
  A datetime is a whole number of seconds on the (naive) time line; midnight of a calendar
  day is a multiple of 86400. The transaction log is a data frame indexed by timestamp;
  it is modelled as the list of its rows, in row order.

  The column \<open>topupvalue\<close> is created by \<open>topupvalues\<close> (lines 118-120) as a column of
  Python objects: \<open>None\<close> for a row whose function code has no entry in the value table,
  and otherwise the entry of the table, a Python integer or a float (possibly NaN) as the
  spreadsheet gives it. Line 143 casts the column to float. A float is modelled as the
  rational number it stands for, with exact arithmetic; NaN is a value of its own.
\<close>

type_synonym datetime = int

datatype pyobj = PyNone | PyInt int | PyFloat rat | PyNaN

record transaction =
  timestamp :: datetime
  unit_id :: string
  function_code :: int
  topupvalue :: pyobj

text \<open>
  A cell of the column \<open>unitstatus\<close>: never assigned (\<open>NaN\<close>), the string 'S'
  (\<open>Stock\<close>), the string 'U' (\<open>Unlocked\<close>), or a number: days of credit remaining when
  positive (the float \<open>dayscreditremaining\<close>), minus the number of consecutive days out of
  credit otherwise (the integer \<open>-continuousdaysooc\<close>).
\<close>

datatype status = NaN | Stock | Unlocked | Num rat

record dayrow =
  idx :: datetime
  dailytopuptotal :: rat
  unitstatus :: status

section \<open>Dates\<close>

definition timedelta :: "int \<Rightarrow> int" where
  "timedelta days = 86400 * days"

text \<open>\<open>dayofdatetime\<close>, lines 213-226; the script and \<open>unitdailystatus\<close> also write its body
  inline as \<open>dt.datetime(*t.timetuple()[:3])\<close>.\<close>

definition dayofdatetime :: "datetime \<Rightarrow> bool \<Rightarrow> datetime" where
  "dayofdatetime datetimeobject nextday =
     (let dayonly = 86400 * (datetimeobject div 86400)
      in if nextday then dayonly + timedelta 1 else dayonly)"

text \<open>\<open>pd.date_range(start, end, freq='d')\<close>: start, start + 1 day, ... up to and including
  the last such value that is not after the end; empty when the end is before the start.\<close>

definition date_range :: "datetime \<Rightarrow> datetime \<Rightarrow> datetime list" where
  "date_range start stop =
     map (\<lambda>k. start + timedelta (int k)) [0 ..< nat ((stop - start) div 86400 + 1)]"

text \<open>The minimum of a datetime index; \<open>None\<close> is pandas' NaT, the minimum of an empty
  index.\<close>

definition index_min :: "datetime list \<Rightarrow> datetime option" where
  "index_min ts = (if ts = [] then None else Some (Min (set ts)))"

definition index_max :: "datetime list \<Rightarrow> datetime option" where
  "index_max ts = (if ts = [] then None else Some (Max (set ts)))"

text \<open>Comparison of an index value with a datetime that may be NaT: every ordering
  comparison with NaT is false.\<close>

fun index_lt :: "datetime \<Rightarrow> datetime option \<Rightarrow> bool" where
  "index_lt d None = False"
| "index_lt d (Some t) = (d < t)"

fun index_ge :: "datetime \<Rightarrow> datetime option \<Rightarrow> bool" where
  "index_ge d None = False"
| "index_ge d (Some t) = (d \<ge> t)"

section \<open>The per-unit simulator \<open>unitdailystatus\<close>\<close>

text \<open>Line 143, \<open>astype(float)\<close>: \<open>None\<close> becomes NaN, an integer becomes the float of the
  same value, a float stays. The cast column is written back into the frame that the caller
  passed, \<open>unittrans\<close>; the other columns of that frame are not written.\<close>

fun astype_float :: "pyobj \<Rightarrow> pyobj" where
  "astype_float PyNone = PyNaN"
| "astype_float (PyInt i) = PyFloat (of_int i)"
| "astype_float (PyFloat v) = PyFloat v"
| "astype_float PyNaN = PyNaN"

definition astype_float_column :: "transaction list \<Rightarrow> transaction list" where
  "astype_float_column unittrans =
     map (\<lambda>e. e\<lparr>topupvalue := astype_float (topupvalue e)\<rparr>) unittrans"

text \<open>Lines 143-146: the values of the column, as floats, are summed per calendar day, NaN
  contributing nothing; the result is indexed by every day from the day of the earliest row
  to the day of the latest row, and a day without a value has total 0. The rows need not
  be in timestamp order. Resampling a series without rows gives a series without rows.\<close>

definition day_sum :: "transaction list \<Rightarrow> datetime \<Rightarrow> rat" where
  "day_sum unittrans d =
     sum_list (map (\<lambda>e. case astype_float (topupvalue e) of PyFloat v \<Rightarrow> v | _ \<Rightarrow> 0)
                   (filter (\<lambda>e. dayofdatetime (timestamp e) False = d) unittrans))"

definition resample_d_sum :: "transaction list \<Rightarrow> (datetime \<times> rat) list" where
  "resample_d_sum unittrans =
     (case (index_min (map timestamp unittrans), index_max (map timestamp unittrans)) of
        (Some lo, Some hi) \<Rightarrow>
          map (\<lambda>d. (d, day_sum unittrans d))
              (date_range (dayofdatetime lo False) (dayofdatetime hi False))
      | _ \<Rightarrow> [])"

text \<open>Lines 156-159: the frame over all dates of interest, left-joined with the daily
  totals; a date without a total gets 0. The column \<open>unitstatus\<close> does not exist yet.\<close>

definition join_totals :: "datetime list \<Rightarrow> (datetime \<times> rat) list \<Rightarrow> dayrow list" where
  "join_totals index resampled =
     map (\<lambda>d. \<lparr>idx = d,
               dailytopuptotal = (case map_of resampled d of None \<Rightarrow> 0 | Some v \<Rightarrow> v),
               unitstatus = NaN\<rparr>) index"

text \<open>\<open>dailyhistory.loc[mask, 'unitstatus'] = v\<close>.\<close>

definition loc_set :: "(datetime \<Rightarrow> bool) \<Rightarrow> status \<Rightarrow> dayrow list \<Rightarrow> dayrow list" where
  "loc_set msk v dailyhistory =
     map (\<lambda>r. if msk (idx r) then r\<lparr>unitstatus := v\<rparr> else r) dailyhistory"

text \<open>The rows with function code 5 (unlock), in row order.\<close>

definition unlocks :: "transaction list \<Rightarrow> transaction list" where
  "unlocks unittrans = filter (\<lambda>e. function_code e = 5) unittrans"

text \<open>Lines 178-199: the walk over the rows selected by the mask, in index order, with the
  two counters \<open>dayscreditremaining\<close> (a float, as the daily totals are) and
  \<open>continuousdaysooc\<close> (an integer). A row outside the mask is not visited.\<close>

fun iterrows :: "(datetime \<Rightarrow> bool) \<Rightarrow> rat \<times> int \<Rightarrow> dayrow list \<Rightarrow> dayrow list" where
  "iterrows msk (dayscreditremaining, continuousdaysooc) [] = []"
| "iterrows msk (dayscreditremaining, continuousdaysooc) (row # rows) =
     (if msk (idx row) then
        (let dayscreditremaining = dayscreditremaining + dailytopuptotal row * 7
         in if dayscreditremaining > 0
            then row\<lparr>unitstatus := Num dayscreditremaining\<rparr>
                 # iterrows msk (dayscreditremaining + (-1), 0) rows
            else row\<lparr>unitstatus := Num (of_int (- continuousdaysooc))\<rparr>
                 # iterrows msk (dayscreditremaining, continuousdaysooc + 1) rows)
      else row # iterrows msk (dayscreditremaining, continuousdaysooc) rows)"

text \<open>The counters after the walk over a list of rows.\<close>

fun counters :: "(datetime \<Rightarrow> bool) \<Rightarrow> rat \<times> int \<Rightarrow> dayrow list \<Rightarrow> rat \<times> int" where
  "counters msk (dayscreditremaining, continuousdaysooc) [] =
     (dayscreditremaining, continuousdaysooc)"
| "counters msk (dayscreditremaining, continuousdaysooc) (row # rows) =
     (if msk (idx row) then
        (let dayscreditremaining = dayscreditremaining + dailytopuptotal row * 7
         in if dayscreditremaining > 0
            then counters msk (dayscreditremaining + (-1), 0) rows
            else counters msk (dayscreditremaining, continuousdaysooc + 1) rows)
      else counters msk (dayscreditremaining, continuousdaysooc) rows)"

text \<open>Lines 148-150: the install date; when none is given (\<open>None\<close>, the default \<open>""\<close>) it
  is the first day of the resampled history, which is NaT when the unit has no row.\<close>

definition install_date :: "transaction list \<Rightarrow> datetime option \<Rightarrow> datetime option" where
  "install_date unittrans installdate =
     (case installdate of
        None \<Rightarrow> index_min (map fst (resample_d_sum unittrans))
      | Some i \<Rightarrow> Some i)"

text \<open>
  Lines 143-206: the frame \<open>dailyhistory\<close> with both columns, as it is before line 208.
  \<^item> Line 165 writes 'S' on the days before the install date.
  \<^item> Lines 168-174: when the unit has an unlock row, the first one in row order
    (\<open>index[0]\<close>) gives the unlock date, truncated to its day, and 'U' is written from
    that date on; otherwise the unlock date is put a year after the end date.
  \<^item> Line 183: the walk visits the days from the install date on that are before the
    unlock date.
  \<^item> Lines 204-206: the unlock date is computed again, as the minimum of the unlock
    timestamps, not truncated; the minimum of no timestamp is NaT, which is not the object
    \<open>np.nan\<close>, so line 206 runs in every case, and with NaT it selects no day.
\<close>

definition dailyhistory_of ::
  "transaction list \<Rightarrow> datetime \<Rightarrow> datetime \<Rightarrow> datetime option \<Rightarrow> dayrow list" where
  "dailyhistory_of unittrans startdate enddate installdate =
     (let installdate = install_date unittrans installdate;
          dailyhistory = join_totals (date_range startdate enddate) (resample_d_sum unittrans);
          dailyhistory = loc_set (\<lambda>d. index_lt d installdate) Stock dailyhistory;
          (unlockdate, dailyhistory) =
            (if length (unlocks unittrans) > 0
             then (let unlockdate = timestamp (hd (unlocks unittrans));
                       unlockdate = dayofdatetime unlockdate False
                   in (unlockdate, loc_set (\<lambda>d. d \<ge> unlockdate) Unlocked dailyhistory))
             else (enddate + timedelta 365, dailyhistory));
          dailyhistory =
            iterrows (\<lambda>d. index_ge d installdate \<and> d < unlockdate) (0, 0) dailyhistory;
          unlockdate = index_min (map timestamp (unlocks unittrans))
      in loc_set (\<lambda>d. index_ge d unlockdate) Unlocked dailyhistory)"

text \<open>
  The call of \<open>unitdailystatus\<close> as its caller sees it: the returned frame, and the frame
  \<open>unittrans\<close> of the caller as line 143 leaves it. A row of the returned frame is
  (date, daily top-up total, status), the total being absent when the column is dropped
  (line 208). The function reads no variable of the module; its other local variables are
  gone when it returns.
\<close>

definition unitdailystatus_call ::
  "transaction list \<Rightarrow> datetime \<Rightarrow> datetime \<Rightarrow> datetime option \<Rightarrow> bool
     \<Rightarrow> (datetime \<times> rat option \<times> status) list \<times> transaction list" where
  "unitdailystatus_call unittrans startdate enddate installdate includetopupvalues =
     (let unittrans = astype_float_column unittrans;
          dailyhistory = dailyhistory_of unittrans startdate enddate installdate
      in (map (\<lambda>r. (idx r,
                    if includetopupvalues = False then None else Some (dailytopuptotal r),
                    unitstatus r)) dailyhistory,
          unittrans))"

text \<open>The frame that the call returns.\<close>

definition unitdailystatus ::
  "transaction list \<Rightarrow> datetime \<Rightarrow> datetime \<Rightarrow> datetime option \<Rightarrow> bool
     \<Rightarrow> (datetime \<times> rat option \<times> status) list" where
  "unitdailystatus unittrans startdate enddate installdate includetopupvalues =
     fst (unitdailystatus_call unittrans startdate enddate installdate includetopupvalues)"

text \<open>The status of a day in a returned frame, if the day is in its index.\<close>

definition status_on :: "(datetime \<times> rat option \<times> status) list \<Rightarrow> datetime \<Rightarrow> status option" where
  "status_on unithist d = map_option snd (map_of unithist d)"

section \<open>The script: the unit history table\<close>

text \<open>The table: its index and its columns in the order they were joined, each column
  aligned with the index.\<close>

record uht =
  uht_index :: "datetime list"
  uht_columns :: "(string \<times> status list) list"

text \<open>Lines 241-244. The minimum of an empty log is NaT, of which no day can be taken:
  the script stops there.\<close>

definition startdate_of :: "transaction list \<Rightarrow> datetime option" where
  "startdate_of translog =
     map_option (\<lambda>t. dayofdatetime t False) (index_min (map timestamp translog))"

definition enddate_of :: "transaction list \<Rightarrow> datetime option" where
  "enddate_of translog =
     map_option (\<lambda>t. dayofdatetime t False + timedelta 1) (index_max (map timestamp translog))"

text \<open>\<open>translog.groupby('unit_id')\<close>: one group per unit identifier, in the order of the
  identifiers, the rows of a group in the order of the log.\<close>

definition groupby_unit_id :: "transaction list \<Rightarrow> (string \<times> transaction list) list" where
  "groupby_unit_id translog =
     map (\<lambda>u. (u, filter (\<lambda>e. unit_id e = u) translog))
         (sort (remdups (map unit_id translog)))"

text \<open>Line 263: the unit's status column, renamed to the unit identifier, left-joined on
  the index of the table; a date of the table that the history lacks gets NaN.\<close>

definition join_left :: "uht \<Rightarrow> string \<Rightarrow> (datetime \<times> rat option \<times> status) list \<Rightarrow> uht" where
  "join_left table unitID unithist =
     table\<lparr>uht_columns := uht_columns table @
       [(unitID, map (\<lambda>d. case status_on unithist d of None \<Rightarrow> NaN | Some s \<Rightarrow> s)
                     (uht_index table))]\<rparr>"

text \<open>Lines 257-263: the body of the loop over the groups. The frame of the group, which
  the call has written to, is not used again.\<close>

definition add_unit :: "datetime \<Rightarrow> datetime \<Rightarrow> string \<times> transaction list \<Rightarrow> uht \<Rightarrow> uht" where
  "add_unit startdate enddate g unithistorytable =
     (case g of (unitID, unittrans) \<Rightarrow>
        if length unittrans > 0
        then (case unitdailystatus_call unittrans startdate enddate None False of
                (unithist, unittrans) \<Rightarrow> join_left unithistorytable unitID unithist)
        else unithistorytable)"

definition unithistorytable :: "transaction list \<Rightarrow> uht option" where
  "unithistorytable translog =
     (case (startdate_of translog, enddate_of translog) of
        (Some startdate, Some enddate) \<Rightarrow>
          Some (fold (add_unit startdate enddate) (groupby_unit_id translog)
                  \<lparr>uht_index = date_range startdate enddate, uht_columns = []\<rparr>)
      | _ \<Rightarrow> None)"

text \<open>A unit's column of the table.\<close>

definition column :: "uht \<Rightarrow> string \<Rightarrow> status list option" where
  "column table unitID = map_of (uht_columns table) unitID"

section \<open>Stages of the simulator, for the proofs\<close>

text \<open>What one visit of the walk writes for a row with daily total \<open>t\<close>, and the counters
  it leaves, as functions of the counters \<open>(dayscreditremaining, continuousdaysooc)\<close> before
  the visit (lines 186-199).\<close>

definition emit :: "rat \<times> int \<Rightarrow> rat \<Rightarrow> status" where
  "emit s t =
     (case s of (c, k) \<Rightarrow> if c + t * 7 > 0 then Num (c + t * 7) else Num (of_int (- k)))"

definition advance :: "rat \<times> int \<Rightarrow> rat \<Rightarrow> rat \<times> int" where
  "advance s t = (case s of (c, k) \<Rightarrow> if c + t * 7 > 0 then (c + t * 7 - 1, 0) else (c + t * 7, k + 1))"

text \<open>The unlock date that bounds the walk (lines 168-174), the mask of the walk
  (line 183), the frame when the walk starts (line 176), and the counters when the walk
  reaches the row at position \<open>j\<close> of the frame.\<close>

definition loop_unlockdate :: "transaction list \<Rightarrow> datetime \<Rightarrow> datetime" where
  "loop_unlockdate unittrans enddate =
     (if length (unlocks unittrans) > 0
      then dayofdatetime (timestamp (hd (unlocks unittrans))) False
      else enddate + timedelta 365)"

definition loop_mask :: "transaction list \<Rightarrow> datetime \<Rightarrow> datetime option \<Rightarrow> datetime \<Rightarrow> bool" where
  "loop_mask unittrans enddate installdate d =
     (index_ge d (install_date unittrans installdate) \<and> d < loop_unlockdate unittrans enddate)"

definition before_loop ::
  "transaction list \<Rightarrow> datetime \<Rightarrow> datetime \<Rightarrow> datetime option \<Rightarrow> dayrow list" where
  "before_loop unittrans startdate enddate installdate =
     (let dailyhistory = loc_set (\<lambda>d. index_lt d (install_date unittrans installdate)) Stock
            (join_totals (date_range startdate enddate) (resample_d_sum unittrans))
      in if length (unlocks unittrans) > 0
         then loc_set (\<lambda>d. d \<ge> loop_unlockdate unittrans enddate) Unlocked dailyhistory
         else dailyhistory)"

definition counters_before ::
  "transaction list \<Rightarrow> datetime \<Rightarrow> datetime \<Rightarrow> datetime option \<Rightarrow> nat \<Rightarrow> rat \<times> int" where
  "counters_before unittrans startdate enddate installdate j =
     counters (loop_mask unittrans enddate installdate) (0, 0)
       (take j (before_loop unittrans startdate enddate installdate))"


text \<open>The unlock date of the specification: the calendar day of the earliest unlock row.\<close>

definition earliest_unlock_day :: "transaction list \<Rightarrow> datetime option" where
  "earliest_unlock_day unittrans =
     map_option (\<lambda>t. dayofdatetime t False) (index_min (map timestamp (unlocks unittrans)))"


text \<open>What \<open>unitdailystatus\<close> reads of a row of the caller's frame: the timestamp (the
  index), the function code, and the top-up value as a float.\<close>

definition read_columns :: "transaction \<Rightarrow> datetime \<times> int \<times> pyobj" where
  "read_columns e = (timestamp e, function_code e, astype_float (topupvalue e))"

text \<open>The rows of a unit without its unlock rows after the first one in row order.\<close>

fun drop_later_unlocks :: "transaction list \<Rightarrow> transaction list" where
  "drop_later_unlocks [] = []"
| "drop_later_unlocks (e # es) =
     (if function_code e = 5 then e # filter (\<lambda>x. function_code x \<noteq> 5) es
      else e # drop_later_unlocks es)"

text \<open>The column that line 263 joins into a table with the given index for a unit with the
  given rows.\<close>

definition unit_column :: "datetime \<Rightarrow> datetime \<Rightarrow> datetime list \<Rightarrow> transaction list \<Rightarrow> status list" where
  "unit_column startdate enddate index unittrans =
     map (\<lambda>d. case status_on (unitdailystatus unittrans startdate enddate None False) d of
                 None \<Rightarrow> NaN | Some s \<Rightarrow> s) index"

section \<open>Calendar arithmetic\<close>

lemma day_floor_le: "86400 * (x div 86400) \<le> (x::int)"
proof -
  have "86400 * (x div 86400) + x mod 86400 = x" by (rule mult_div_mod_eq)
  moreover have "0 \<le> x mod 86400" by (rule pos_mod_sign) simp
  ultimately show ?thesis by linarith
qed

lemma day_floor_gt: "(x::int) < 86400 * (x div 86400) + 86400"
proof -
  have "86400 * (x div 86400) + x mod 86400 = x" by (rule mult_div_mod_eq)
  moreover have "x mod 86400 < 86400" by (rule pos_mod_bound) simp
  ultimately show ?thesis by linarith
qed

lemma length_date_range: "length (date_range a b) = nat ((b - a) div 86400 + 1)"
  by (simp add: date_range_def)

lemma nth_date_range: "j < length (date_range a b) \<Longrightarrow> date_range a b ! j = a + 86400 * int j"
  by (simp add: date_range_def timedelta_def)

lemma date_range_bound:
  "j < length (date_range a b) \<Longrightarrow> a + 86400 * int j \<le> b"
proof -
  assume "j < length (date_range a b)"
  then have "int j \<le> (b - a) div 86400" by (simp add: length_date_range)
  then have "86400 * int j \<le> 86400 * ((b - a) div 86400)" by simp
  also have "\<dots> \<le> b - a" by (rule day_floor_le)
  finally show ?thesis by simp
qed

lemma in_date_range_iff:
  "d \<in> set (date_range a b) \<longleftrightarrow> a \<le> d \<and> d \<le> b \<and> (d - a) mod 86400 = 0"
proof
  assume "d \<in> set (date_range a b)"
  then obtain j where j: "j < length (date_range a b)" and d: "d = date_range a b ! j"
    by (auto simp: in_set_conv_nth)
  from j d have e: "d = a + 86400 * int j" by (simp add: nth_date_range)
  with date_range_bound [OF j] show "a \<le> d \<and> d \<le> b \<and> (d - a) mod 86400 = 0" by simp
next
  assume h: "a \<le> d \<and> d \<le> b \<and> (d - a) mod 86400 = 0"
  define j where "j = nat ((d - a) div 86400)"
  from h have "0 \<le> (d - a) div 86400" by (simp add: pos_imp_zdiv_nonneg_iff)
  then have ij: "int j = (d - a) div 86400" by (simp add: j_def)
  from h have "86400 * ((d - a) div 86400) = d - a"
    by (metis mult_div_mod_eq add.right_neutral)
  with ij have e: "d = a + 86400 * int j" by simp
  from h have "(d - a) div 86400 \<le> (b - a) div 86400" by (intro zdiv_mono1) auto
  with ij have "j < length (date_range a b)" by (simp add: length_date_range)
  with e show "d \<in> set (date_range a b)"
    by (metis nth_date_range nth_mem)
qed

lemma distinct_date_range: "distinct (date_range a b)"
  by (simp add: date_range_def distinct_map inj_on_def timedelta_def)

lemma dayofdatetime_le: "dayofdatetime t False \<le> t"
  by (simp add: dayofdatetime_def day_floor_le)

lemma dayofdatetime_gt: "t < dayofdatetime t False + 86400"
  by (simp add: dayofdatetime_def day_floor_gt)

lemma dayofdatetime_mono: "s \<le> t \<Longrightarrow> dayofdatetime s False \<le> dayofdatetime t False"
  by (simp add: dayofdatetime_def zdiv_mono1)

lemma dayofdatetime_mod: "dayofdatetime t False mod 86400 = 0"
  by (simp add: dayofdatetime_def)

text \<open>a midnight not after t is not after the day of t\<close>
lemma midnight_le_day:
  assumes "d mod 86400 = 0" "d \<le> t" shows "d \<le> dayofdatetime t False"
proof -
  have "dayofdatetime d False = d"
    using assms(1) by (simp add: dayofdatetime_def) (metis mult_div_mod_eq add.right_neutral)
  with dayofdatetime_mono [OF assms(2)] show ?thesis by simp
qed

section \<open>What the simulator reads of the caller's frame\<close>

lemma astype_float_idem: "astype_float (astype_float v) = astype_float v"
  by (cases v) simp_all

lemma astype_float_column_idem:
  "astype_float_column (astype_float_column unittrans) = astype_float_column unittrans"
  by (simp add: astype_float_column_def astype_float_idem)

lemma day_sum_read:
  "day_sum unittrans d =
     sum_list (map (\<lambda>k. case snd (snd k) of PyFloat v \<Rightarrow> v | _ \<Rightarrow> 0)
                (filter (\<lambda>k. dayofdatetime (fst k) False = d) (map read_columns unittrans)))"
  by (simp add: day_sum_def read_columns_def filter_map o_def)

lemma timestamp_read: "map timestamp unittrans = map fst (map read_columns unittrans)"
  by (simp add: read_columns_def o_def)

lemma unlocks_read:
  "map timestamp (unlocks unittrans) =
     map fst (filter (\<lambda>k. fst (snd k) = 5) (map read_columns unittrans))"
  by (simp add: unlocks_def read_columns_def filter_map o_def)

lemma read_columns_cast:
  "map read_columns (astype_float_column unittrans) = map read_columns unittrans"
  by (simp add: read_columns_def astype_float_column_def astype_float_idem)

text \<open>The frame \<open>dailyhistory\<close> is determined by the timestamps, the function codes and the
  float values of the top-up column of the rows, in row order.\<close>

lemma dailyhistory_of_read:
  assumes "map read_columns unittrans1 = map read_columns unittrans2"
  shows "dailyhistory_of unittrans1 startdate enddate installdate =
         dailyhistory_of unittrans2 startdate enddate installdate"
proof -
  from assms have ts: "map timestamp unittrans1 = map timestamp unittrans2"
    by (simp only: timestamp_read)
  from assms have "\<And>d. day_sum unittrans1 d = day_sum unittrans2 d"
    by (simp only: day_sum_read)
  then have ds: "day_sum unittrans1 = day_sum unittrans2" by (rule ext)
  from assms have ul: "map timestamp (unlocks unittrans1) = map timestamp (unlocks unittrans2)"
    by (simp only: unlocks_read)
  have r: "resample_d_sum unittrans1 = resample_d_sum unittrans2"
    unfolding resample_d_sum_def ts ds ..
  have i: "install_date unittrans1 installdate = install_date unittrans2 installdate"
    unfolding install_date_def r ..
  from ul have "length (map timestamp (unlocks unittrans1)) = length (map timestamp (unlocks unittrans2))"
    by (rule arg_cong)
  then have l: "length (unlocks unittrans1) = length (unlocks unittrans2)" by simp
  have h: "timestamp (hd (unlocks unittrans1)) = timestamp (hd (unlocks unittrans2))"
    if "unlocks unittrans1 \<noteq> []"
  proof -
    from that l have "unlocks unittrans2 \<noteq> []" by auto
    with that arg_cong [OF ul, of hd] show ?thesis by (simp add: hd_map)
  qed
  show ?thesis
  proof (cases "unlocks unittrans1 = []")
    case True
    with l have "unlocks unittrans2 = []" by simp
    with True show ?thesis by (simp add: dailyhistory_of_def r i Let_def)
  next
    case False
    with l have "unlocks unittrans2 \<noteq> []" by auto
    with False h ul show ?thesis by (simp add: dailyhistory_of_def r i Let_def)
  qed
qed

lemma dailyhistory_of_cast:
  "dailyhistory_of (astype_float_column unittrans) startdate enddate installdate =
   dailyhistory_of unittrans startdate enddate installdate"
  by (rule dailyhistory_of_read) (rule read_columns_cast)

lemma unitdailystatus_eq:
  "unitdailystatus unittrans startdate enddate installdate includetopupvalues =
     map (\<lambda>r. (idx r,
               if includetopupvalues = False then None else Some (dailytopuptotal r),
               unitstatus r))
         (dailyhistory_of unittrans startdate enddate installdate)"
  by (simp add: unitdailystatus_def unitdailystatus_call_def dailyhistory_of_cast Let_def)

section \<open>The walk and the frame, row by row\<close>

lemma dailyhistory_of_stages:
  "dailyhistory_of unittrans startdate enddate installdate =
     loc_set (\<lambda>d. index_ge d (index_min (map timestamp (unlocks unittrans)))) Unlocked
       (iterrows (loop_mask unittrans enddate installdate) (0, 0)
          (before_loop unittrans startdate enddate installdate))"
proof -
  have m: "loop_mask unittrans enddate installdate =
      (\<lambda>d. index_ge d (install_date unittrans installdate) \<and> d < loop_unlockdate unittrans enddate)"
    by (rule ext) (simp add: loop_mask_def)
  show ?thesis
    unfolding m
    by (cases "unlocks unittrans = []")
       (simp_all add: dailyhistory_of_def before_loop_def loop_unlockdate_def Let_def)
qed

lemma length_iterrows: "length (iterrows msk s rows) = length rows"
  by (induction msk s rows rule: iterrows.induct) (simp_all add: Let_def)

lemma iterrows_nth:
  "j < length rows \<Longrightarrow>
   iterrows msk s rows ! j =
     (if msk (idx (rows ! j))
      then (rows ! j)\<lparr>unitstatus := emit (counters msk s (take j rows)) (dailytopuptotal (rows ! j))\<rparr>
      else rows ! j)"
proof (induction msk s rows arbitrary: j rule: iterrows.induct)
  case (1 msk c k)
  then show ?case by simp
next
  case (2 msk c k row rows)
  show ?case
  proof (cases j)
    case 0
    then show ?thesis by (simp add: emit_def Let_def)
  next
    case (Suc i)
    with "2.prems" have i: "i < length rows" by simp
    show ?thesis
    proof (cases "msk (idx row)")
      case False
      with "2.IH"(3) [OF False i] Suc show ?thesis by simp
    next
      case True
      note m = this
      show ?thesis
      proof (cases "c + dailytopuptotal row * 7 > 0")
        case True
        with "2.IH"(1) [OF m refl _ i] m Suc show ?thesis by (simp add: Let_def)
      next
        case False
        with "2.IH"(2) [OF m refl _ i] m Suc show ?thesis by (simp add: Let_def)
      qed
    qed
  qed
qed

lemma counters_append:
  "counters msk s (xs @ ys) = counters msk (counters msk s xs) ys"
  by (induction msk s xs rule: counters.induct) (simp_all add: Let_def)

lemma counters_take_Suc:
  assumes "j < length rows"
  shows "counters msk s (take (Suc j) rows) =
     (if msk (idx (rows ! j))
      then advance (counters msk s (take j rows)) (dailytopuptotal (rows ! j))
      else counters msk s (take j rows))"
proof -
  have "take (Suc j) rows = take j rows @ [rows ! j]"
    using assms by (rule take_Suc_conv_app_nth)
  then show ?thesis
    by (cases "counters msk s (take j rows)") (simp add: counters_append advance_def Let_def)
qed

lemma day_diff_mod: "(dayofdatetime s False - dayofdatetime t False) mod 86400 = 0"
proof -
  have "dayofdatetime s False - dayofdatetime t False = 86400 * (s div 86400 - t div 86400)"
    by (simp add: dayofdatetime_def right_diff_distrib)
  then show ?thesis by simp
qed

lemma event_day_in_resample_range:
  assumes "e \<in> set unittrans"
  shows "dayofdatetime (timestamp e) False \<in>
     set (date_range (dayofdatetime (Min (set (map timestamp unittrans))) False)
                     (dayofdatetime (Max (set (map timestamp unittrans))) False))"
proof -
  from assms have "timestamp e \<in> set (map timestamp unittrans)" by simp
  then have "Min (set (map timestamp unittrans)) \<le> timestamp e"
    and "timestamp e \<le> Max (set (map timestamp unittrans))"
    by (simp_all only: Min_le Max_ge List.finite_set)
  then show ?thesis
    by (simp only: in_date_range_iff dayofdatetime_mono day_diff_mod simp_thms)
qed

lemma day_sum_no_event:
  "\<forall>e \<in> set unittrans. dayofdatetime (timestamp e) False \<noteq> d \<Longrightarrow> day_sum unittrans d = 0"
  by (simp add: day_sum_def filter_False)

lemma map_of_graph: "map_of (map (\<lambda>d. (d, f d)) xs) d = (if d \<in> set xs then Some (f d) else None)"
  by (induction xs) auto

lemma joined_total:
  "(case map_of (resample_d_sum unittrans) d of None \<Rightarrow> 0 | Some v \<Rightarrow> v) = day_sum unittrans d"
proof (cases "unittrans = []")
  case True
  then show ?thesis by (simp add: resample_d_sum_def index_min_def index_max_def day_sum_def)
next
  case False
  let ?r = "date_range (dayofdatetime (Min (set (map timestamp unittrans))) False)
                     (dayofdatetime (Max (set (map timestamp unittrans))) False)"
  from False have r: "resample_d_sum unittrans = map (\<lambda>d. (d, day_sum unittrans d)) ?r"
    by (simp add: resample_d_sum_def index_min_def index_max_def)
  show ?thesis
  proof (cases "d \<in> set ?r")
    case True
    then show ?thesis unfolding r map_of_graph by simp
  next
    case False
    then have "\<forall>e \<in> set unittrans. dayofdatetime (timestamp e) False \<noteq> d"
      using event_day_in_resample_range by blast
    then have "day_sum unittrans d = 0" by (rule day_sum_no_event)
    with False show ?thesis unfolding r map_of_graph by simp
  qed
qed

lemma length_before_loop:
  "length (before_loop unittrans startdate enddate installdate) = length (date_range startdate enddate)"
  by (simp add: before_loop_def loc_set_def join_totals_def Let_def)

lemma before_loop_nth:
  assumes "j < length (date_range startdate enddate)"
  shows "before_loop unittrans startdate enddate installdate ! j =
     \<lparr>idx = date_range startdate enddate ! j,
      dailytopuptotal = day_sum unittrans (date_range startdate enddate ! j),
      unitstatus =
        (if unlocks unittrans \<noteq> [] \<and> date_range startdate enddate ! j \<ge> loop_unlockdate unittrans enddate
         then Unlocked
         else if index_lt (date_range startdate enddate ! j) (install_date unittrans installdate)
         then Stock else NaN)\<rparr>"
  using assms
  by (simp add: before_loop_def loc_set_def join_totals_def Let_def joined_total)

lemma length_dailyhistory_of:
  "length (dailyhistory_of unittrans startdate enddate installdate) = length (date_range startdate enddate)"
  by (simp add: dailyhistory_of_stages loc_set_def length_iterrows length_before_loop)

text \<open>The row of each date of the returned frame.\<close>
lemma dailyhistory_of_nth:
  assumes "j < length (date_range startdate enddate)"
  defines "d \<equiv> date_range startdate enddate ! j"
  shows "idx (dailyhistory_of unittrans startdate enddate installdate ! j) = d"
    and "dailytopuptotal (dailyhistory_of unittrans startdate enddate installdate ! j) = day_sum unittrans d"
    and "unitstatus (dailyhistory_of unittrans startdate enddate installdate ! j) =
     (if index_ge d (index_min (map timestamp (unlocks unittrans))) then Unlocked
      else if loop_mask unittrans enddate installdate d
      then emit (counters_before unittrans startdate enddate installdate j) (day_sum unittrans d)
      else if unlocks unittrans \<noteq> [] \<and> d \<ge> loop_unlockdate unittrans enddate then Unlocked
      else if index_lt d (install_date unittrans installdate) then Stock
      else NaN)"
  using assms(1) unfolding d_def
  by (simp_all add: dailyhistory_of_stages loc_set_def length_iterrows length_before_loop
        iterrows_nth before_loop_nth counters_before_def)

lemma map_idx_dailyhistory_of:
  "map idx (dailyhistory_of unittrans startdate enddate installdate) = date_range startdate enddate"
  by (rule nth_equalityI) (simp_all add: length_dailyhistory_of dailyhistory_of_nth)

lemma status_on_nth:
  assumes "j < length (date_range startdate enddate)"
  shows "status_on (unitdailystatus unittrans startdate enddate installdate flag)
           (date_range startdate enddate ! j) =
         Some (unitstatus (dailyhistory_of unittrans startdate enddate installdate ! j))"
proof -
  let ?h = "unitdailystatus unittrans startdate enddate installdate flag"
  let ?rows = "dailyhistory_of unittrans startdate enddate installdate"
  have fst: "map fst ?h = date_range startdate enddate"
    by (simp add: unitdailystatus_eq o_def map_idx_dailyhistory_of)
  then have dist: "distinct (map fst ?h)" by (simp add: distinct_date_range)
  from assms have j: "j < length ?h" by (simp add: unitdailystatus_eq length_dailyhistory_of)
  from j have "?h ! j \<in> set ?h" by (rule nth_mem)
  moreover from j have "?h ! j = (date_range startdate enddate ! j,
       (if flag = False then None else Some (dailytopuptotal (?rows ! j))), unitstatus (?rows ! j))"
    using assms by (simp add: unitdailystatus_eq dailyhistory_of_nth)
  ultimately have "map_of ?h (date_range startdate enddate ! j) =
      Some ((if flag = False then None else Some (dailytopuptotal (?rows ! j))), unitstatus (?rows ! j))"
    using dist by (simp add: map_of_eq_Some_iff)
  then show ?thesis by (simp add: status_on_def)
qed

lemma map_fst_unitdailystatus:
  "map fst (unitdailystatus unittrans startdate enddate installdate flag) = date_range startdate enddate"
  by (simp add: unitdailystatus_eq o_def map_idx_dailyhistory_of)

lemma status_on_notin:
  assumes "d \<notin> set (date_range startdate enddate)"
  shows "status_on (unitdailystatus unittrans startdate enddate installdate flag) d = None"
proof -
  have "set (date_range startdate enddate) =
        fst ` set (unitdailystatus unittrans startdate enddate installdate flag)"
    using arg_cong [OF map_fst_unitdailystatus, of set unittrans startdate enddate installdate flag]
    by (simp del: map_fst_unitdailystatus)
  with assms show ?thesis by (simp add: status_on_def map_of_eq_None_iff)
qed

lemma counters_before_Suc:
  assumes "j < length (date_range startdate enddate)"
  shows "counters_before unittrans startdate enddate installdate (Suc j) =
     (if loop_mask unittrans enddate installdate (date_range startdate enddate ! j)
      then advance (counters_before unittrans startdate enddate installdate j)
                   (day_sum unittrans (date_range startdate enddate ! j))
      else counters_before unittrans startdate enddate installdate j)"
  using assms unfolding counters_before_def
  by (simp add: counters_take_Suc length_before_loop before_loop_nth del: take_Suc)

lemma counters_streak_nonneg:
  "0 \<le> snd s \<Longrightarrow> 0 \<le> snd (counters msk s rows)"
  by (induction msk s rows rule: counters.induct) (simp_all add: Let_def)

lemma counters_before_streak_nonneg:
  "0 \<le> snd (counters_before unittrans startdate enddate installdate j)"
  unfolding counters_before_def by (rule counters_streak_nonneg) simp

lemma in_date_range_pos:
  assumes "d \<in> set (date_range a b)"
  obtains j where "j < length (date_range a b)" "date_range a b ! j = d"
  using assms by (auto simp: in_set_conv_nth)

lemma next_day_pos:
  assumes j: "j < length (date_range a b)"
      and n: "date_range a b ! j + timedelta 1 \<in> set (date_range a b)"
  shows "Suc j < length (date_range a b)"
    and "date_range a b ! Suc j = date_range a b ! j + timedelta 1"
proof -
  from n obtain i where i: "i < length (date_range a b)"
    and e: "date_range a b ! i = date_range a b ! j + timedelta 1"
    by (rule in_date_range_pos)
  from e i j have "a + 86400 * int i = a + 86400 * int j + 86400"
    by (simp add: nth_date_range timedelta_def)
  then have "i = Suc j" by simp
  with i e show "Suc j < length (date_range a b)"
    and "date_range a b ! Suc j = date_range a b ! j + timedelta 1" by simp_all
qed

lemma hd_unlocks_ge_min:
  assumes "unlocks unittrans \<noteq> []"
  shows "Min (set (map timestamp (unlocks unittrans))) \<le> timestamp (hd (unlocks unittrans))"
proof -
  from assms have "timestamp (hd (unlocks unittrans)) \<in> set (map timestamp (unlocks unittrans))"
    by simp
  then show ?thesis by (simp only: Min_le List.finite_set)
qed

text \<open>A date before the day of the earliest unlock row is before both unlock dates of the code.\<close>
lemma before_earliest_unlock:
  assumes "\<forall>u. earliest_unlock_day unittrans = Some u \<longrightarrow> d < u" and "d \<le> enddate"
  shows "\<not> index_ge d (index_min (map timestamp (unlocks unittrans)))"
    and "d < loop_unlockdate unittrans enddate"
proof -
  show "\<not> index_ge d (index_min (map timestamp (unlocks unittrans)))"
  proof (cases "unlocks unittrans = []")
    case True
    then show ?thesis by (simp add: index_min_def)
  next
    case False
    define m where "m = Min (set (map timestamp (unlocks unittrans)))"
    from False have im: "index_min (map timestamp (unlocks unittrans)) = Some m"
      by (simp add: index_min_def m_def)
    with assms(1) have "d < dayofdatetime m False"
      by (simp add: earliest_unlock_day_def)
    with dayofdatetime_le [of m] have "d < m" by linarith
    then show ?thesis unfolding im by simp
  qed
  show "d < loop_unlockdate unittrans enddate"
  proof (cases "unlocks unittrans = []")
    case True
    with assms(2) show ?thesis by (simp add: loop_unlockdate_def timedelta_def)
  next
    case False
    with assms(1) have "d < dayofdatetime (Min (set (map timestamp (unlocks unittrans)))) False"
      by (simp add: earliest_unlock_day_def index_min_def)
    also have "\<dots> \<le> dayofdatetime (timestamp (hd (unlocks unittrans))) False"
      using False by (intro dayofdatetime_mono hd_unlocks_ge_min)
    finally show ?thesis using False by (simp add: loop_unlockdate_def)
  qed
qed

text \<open>A numeric status was written by the walk.\<close>
lemma status_Num_walk:
  assumes "j < length (date_range startdate enddate)"
      and "unitstatus (dailyhistory_of unittrans startdate enddate installdate ! j) = Num n"
  shows "loop_mask unittrans enddate installdate (date_range startdate enddate ! j)"
    and "emit (counters_before unittrans startdate enddate installdate j)
              (day_sum unittrans (date_range startdate enddate ! j)) = Num n"
  using assms by (simp_all add: dailyhistory_of_nth split: if_splits)

text \<open>From a day with a numeric status to the next day, both before the unlock day.\<close>
lemma next_day_status:
  assumes st: "status_on (unitdailystatus unittrans startdate enddate installdate flag) d = Some (Num n)"
      and nx: "d + timedelta 1 \<in> set (date_range startdate enddate)"
      and ul: "\<forall>u. earliest_unlock_day unittrans = Some u \<longrightarrow> d + timedelta 1 < u"
  shows "\<exists>j. j < length (date_range startdate enddate) \<and> date_range startdate enddate ! j = d \<and>
           emit (counters_before unittrans startdate enddate installdate j) (day_sum unittrans d) = Num n \<and>
           status_on (unitdailystatus unittrans startdate enddate installdate flag) (d + timedelta 1) =
             Some (emit (advance (counters_before unittrans startdate enddate installdate j)
                            (day_sum unittrans d)) (day_sum unittrans (d + timedelta 1)))"
proof -
  let ?ix = "date_range startdate enddate"
  let ?cb = "counters_before unittrans startdate enddate installdate"
  from st have "d \<in> set ?ix" using status_on_notin by fastforce
  then obtain j where j: "j < length ?ix" and dj: "?ix ! j = d" by (rule in_date_range_pos)
  from nx dj have sj: "Suc j < length ?ix" and dsj: "?ix ! Suc j = d + timedelta 1"
    using next_day_pos [OF j] by simp_all
  from st have "unitstatus (dailyhistory_of unittrans startdate enddate installdate ! j) = Num n"
    using status_on_nth [OF j, of unittrans installdate flag] dj by simp
  from status_Num_walk [OF j this] dj
  have m: "loop_mask unittrans enddate installdate d"
    and e: "emit (?cb j) (day_sum unittrans d) = Num n" by simp_all
  from nx have le: "d + timedelta 1 \<le> enddate" by (simp add: in_date_range_iff)
  from before_earliest_unlock [OF ul le]
  have u2: "\<not> index_ge (d + timedelta 1) (index_min (map timestamp (unlocks unittrans)))"
    and u1: "d + timedelta 1 < loop_unlockdate unittrans enddate" by simp_all
  from m have "index_ge (d + timedelta 1) (install_date unittrans installdate)"
    by (cases "install_date unittrans installdate") (simp_all add: loop_mask_def timedelta_def)
  with u1 have m': "loop_mask unittrans enddate installdate (d + timedelta 1)"
    by (simp add: loop_mask_def)
  have "?cb (Suc j) = advance (?cb j) (day_sum unittrans d)"
    using counters_before_Suc [OF j, of unittrans installdate] m dj by simp
  then have "status_on (unitdailystatus unittrans startdate enddate installdate flag) (d + timedelta 1) =
      Some (emit (advance (?cb j) (day_sum unittrans d)) (day_sum unittrans (d + timedelta 1)))"
    using status_on_nth [OF sj, of unittrans installdate flag] dsj u2 m'
    by (simp add: dailyhistory_of_nth [OF sj])
  with e j dj show ?thesis by blast
qed

section \<open>The decrement law and the growth of the streak\<close>

text \<open>
  A numeric status is read as the docstring of \<open>unitdailystatus\<close> says: a positive number
  \<open>n\<close> is \<open>n\<close> days of credit remaining, CreditRemaining(n); a number \<open>- k\<close> with
  \<open>k \<ge> 0\<close> is \<open>k\<close> consecutive days out of credit, OutOfCredit(k).
\<close>

text \<open>
  Claim C3 (decrement law). If the status of day \<open>d\<close> is CreditRemaining(n), the next day is
  in the simulated range, has daily top-up total 0 and is strictly before the day of the
  unit's earliest unlock row (if the unit has one), then the status of the next day is
  CreditRemaining(n - 1) when \<open>n - 1 > 0\<close> and OutOfCredit(0), the number 0, otherwise.
\<close>

theorem decrement_law:
  assumes "status_on (unitdailystatus unittrans startdate enddate installdate flag) d = Some (Num n)"
      and "0 < n"
      and "d + timedelta 1 \<in> set (date_range startdate enddate)"
      and "day_sum unittrans (d + timedelta 1) = 0"
      and "\<forall>u. earliest_unlock_day unittrans = Some u \<longrightarrow> d + timedelta 1 < u"
  shows "status_on (unitdailystatus unittrans startdate enddate installdate flag) (d + timedelta 1) =
           Some (if n - 1 > 0 then Num (n - 1) else Num 0)"
proof -
  from next_day_status [OF assms(1,3,5)] obtain j where
    "emit (counters_before unittrans startdate enddate installdate j) (day_sum unittrans d) = Num n"
    "status_on (unitdailystatus unittrans startdate enddate installdate flag) (d + timedelta 1) =
       Some (emit (advance (counters_before unittrans startdate enddate installdate j)
                     (day_sum unittrans d)) (day_sum unittrans (d + timedelta 1)))"
    by blast
  moreover define s where "s = counters_before unittrans startdate enddate installdate j"
  ultimately have e: "emit s (day_sum unittrans d) = Num n" and
    st: "status_on (unitdailystatus unittrans startdate enddate installdate flag) (d + timedelta 1) =
             Some (emit (advance s (day_sum unittrans d)) (day_sum unittrans (d + timedelta 1)))"
    by simp_all
  have k0: "0 \<le> snd s" unfolding s_def by (rule counters_before_streak_nonneg)
  obtain c k where s: "s = (c, k)" by (cases s)
  from e s k0 \<open>0 < n\<close> have "c + day_sum unittrans d * 7 > 0" and "n = c + day_sum unittrans d * 7"
    by (auto simp: emit_def split: if_splits)
  then have "advance s (day_sum unittrans d) = (n - 1, 0)" by (simp add: advance_def s)
  with st assms(4) show ?thesis by (simp add: emit_def)
qed

theorem decrement_law_witness:
  "status_on (unitdailystatus [\<lparr>timestamp = 100, unit_id = ''u1'', function_code = 3, topupvalue = PyInt 1\<rparr>]
      0 864000 None False) 518400 = Some (Num 1)
   \<and> 518400 + timedelta 1 \<in> set (date_range 0 864000)
   \<and> day_sum [\<lparr>timestamp = 100, unit_id = ''u1'', function_code = 3, topupvalue = PyInt 1\<rparr>] (518400 + timedelta 1) = 0
   \<and> earliest_unlock_day [\<lparr>timestamp = 100, unit_id = ''u1'', function_code = 3, topupvalue = PyInt 1\<rparr>] = None
   \<and> status_on (unitdailystatus [\<lparr>timestamp = 100, unit_id = ''u1'', function_code = 3, topupvalue = PyInt 1\<rparr>]
      0 864000 None False) (518400 + timedelta 1) = Some (Num 0)"
proof -
  let ?e = "\<lparr>timestamp = 100, unit_id = ''u1'', function_code = 3, topupvalue = PyInt 1\<rparr>"
  have h1: "status_on (unitdailystatus [?e] 0 864000 None False) 518400 = Some (Num 1)"
    by code_simp
  have h2: "(0::rat) < 1" by simp
  have h3: "518400 + timedelta 1 \<in> set (date_range 0 864000)" by code_simp
  have h4: "day_sum [?e] (518400 + timedelta 1) = 0" by code_simp
  have h5: "earliest_unlock_day [?e] = None" by code_simp
  then have h5': "\<forall>u. earliest_unlock_day [?e] = Some u \<longrightarrow> 518400 + timedelta 1 < u" by simp
  from decrement_law [OF h1 h2 h3 h4 h5'] h1 h3 h4 h5 show ?thesis by simp
qed

text \<open>
  Claim C4 (streak growth). If the status of day \<open>d\<close> is OutOfCredit(k), the next day is in
  the simulated range, has daily top-up total 0 and is strictly before the day of the unit's
  earliest unlock row (if the unit has one), then the status of the next day is
  OutOfCredit(k + 1).
\<close>

theorem streak_growth:
  assumes "status_on (unitdailystatus unittrans startdate enddate installdate flag) d = Some (Num (- k))"
      and "0 \<le> k"
      and "d + timedelta 1 \<in> set (date_range startdate enddate)"
      and "day_sum unittrans (d + timedelta 1) = 0"
      and "\<forall>u. earliest_unlock_day unittrans = Some u \<longrightarrow> d + timedelta 1 < u"
  shows "status_on (unitdailystatus unittrans startdate enddate installdate flag) (d + timedelta 1) =
           Some (Num (- (k + 1)))"
proof -
  from next_day_status [OF assms(1,3,5)] obtain j where
    "emit (counters_before unittrans startdate enddate installdate j) (day_sum unittrans d) = Num (- k)"
    "status_on (unitdailystatus unittrans startdate enddate installdate flag) (d + timedelta 1) =
       Some (emit (advance (counters_before unittrans startdate enddate installdate j)
                     (day_sum unittrans d)) (day_sum unittrans (d + timedelta 1)))"
    by blast
  moreover define s where "s = counters_before unittrans startdate enddate installdate j"
  ultimately have e: "emit s (day_sum unittrans d) = Num (- k)" and
    st: "status_on (unitdailystatus unittrans startdate enddate installdate flag) (d + timedelta 1) =
             Some (emit (advance s (day_sum unittrans d)) (day_sum unittrans (d + timedelta 1)))"
    by simp_all
  have k0: "0 \<le> snd s" unfolding s_def by (rule counters_before_streak_nonneg)
  obtain c k' where s: "s = (c, k')" by (cases s)
  from e s \<open>0 \<le> k\<close> have n: "\<not> c + day_sum unittrans d * 7 > 0" and k: "k = of_int k'"
    by (auto simp: emit_def split: if_splits)
  then have "advance s (day_sum unittrans d) = (c + day_sum unittrans d * 7, k' + 1)"
    by (simp add: advance_def s)
  with st assms(4) n k show ?thesis by (simp add: emit_def)
qed

theorem streak_growth_witness:
  "status_on (unitdailystatus [\<lparr>timestamp = 100, unit_id = ''u1'', function_code = 3, topupvalue = PyInt 1\<rparr>]
      0 864000 None False) 691200 = Some (Num (- 1))
   \<and> 691200 + timedelta 1 \<in> set (date_range 0 864000)
   \<and> day_sum [\<lparr>timestamp = 100, unit_id = ''u1'', function_code = 3, topupvalue = PyInt 1\<rparr>] (691200 + timedelta 1) = 0
   \<and> earliest_unlock_day [\<lparr>timestamp = 100, unit_id = ''u1'', function_code = 3, topupvalue = PyInt 1\<rparr>] = None
   \<and> status_on (unitdailystatus [\<lparr>timestamp = 100, unit_id = ''u1'', function_code = 3, topupvalue = PyInt 1\<rparr>]
      0 864000 None False) (691200 + timedelta 1) = Some (Num (- 2))"
proof -
  let ?e = "\<lparr>timestamp = 100, unit_id = ''u1'', function_code = 3, topupvalue = PyInt 1\<rparr>"
  have h1: "status_on (unitdailystatus [?e] 0 864000 None False) 691200 = Some (Num (- 1))"
    by code_simp
  have h2: "(0::rat) \<le> 1" by simp
  have h3: "691200 + timedelta 1 \<in> set (date_range 0 864000)" by code_simp
  have h4: "day_sum [?e] (691200 + timedelta 1) = 0" by code_simp
  have h5: "earliest_unlock_day [?e] = None" by code_simp
  then have h5': "\<forall>u. earliest_unlock_day [?e] = Some u \<longrightarrow> 691200 + timedelta 1 < u" by simp
  from streak_growth [OF h1 h2 h3 h4 h5'] h1 h3 h4 h5 show ?thesis by simp
qed

section \<open>The credit counter and debt\<close>

lemma pos_Ints_ge_1:
  assumes "(x :: rat) \<in> \<int>" "0 < x" shows "1 \<le> x"
proof -
  from assms(1) obtain z :: int where x: "x = of_int z" by (rule Ints_cases)
  with assms(2) have "0 < z" by simp
  then have "1 \<le> z" by simp
  then have "(of_int 1 :: rat) \<le> of_int z" by (simp only: of_int_le_iff)
  with x show ?thesis by simp
qed

lemma advance_credit_nonneg:
  assumes "0 \<le> fst s" "fst s \<in> \<int>" "0 \<le> t" "t * 7 \<in> \<int>"
  shows "0 \<le> fst (advance s t) \<and> fst (advance s t) \<in> \<int>"
proof -
  obtain c k where s: "s = (c, k)" by (cases s)
  with assms have i: "c + t * 7 \<in> \<int>" by simp
  show ?thesis
  proof (cases "0 < c + t * 7")
    case True
    have "1 \<le> c + t * 7" using i True by (rule pos_Ints_ge_1)
    moreover from i have "c + t * 7 - 1 \<in> \<int>" by (intro Ints_diff Ints_1)
    ultimately show ?thesis using True by (simp add: advance_def s)
  next
    case False
    moreover from assms s have "0 \<le> c + t * 7" by simp
    ultimately show ?thesis using i by (simp add: advance_def s)
  qed
qed

lemma counters_before_past_end:
  assumes "\<not> j < length (date_range startdate enddate)"
  shows "counters_before unittrans startdate enddate installdate (Suc j) =
         counters_before unittrans startdate enddate installdate j"
  using assms unfolding counters_before_def by (simp add: length_before_loop del: take_Suc)

lemma credit_nonneg:
  assumes "\<forall>d. 0 \<le> day_sum unittrans d \<and> day_sum unittrans d * 7 \<in> \<int>"
  shows "0 \<le> fst (counters_before unittrans startdate enddate installdate j)
       \<and> fst (counters_before unittrans startdate enddate installdate j) \<in> \<int>"
proof (induction j)
  case 0
  show ?case by (simp add: counters_before_def)
next
  case (Suc j)
  show ?case
  proof (cases "j < length (date_range startdate enddate)")
    case True
    from assms have "0 \<le> day_sum unittrans (date_range startdate enddate ! j)"
      and "day_sum unittrans (date_range startdate enddate ! j) * 7 \<in> \<int>" by blast+
    with Suc advance_credit_nonneg show ?thesis
      by (simp add: counters_before_Suc [OF True])
  next
    case False
    with Suc show ?thesis by (simp add: counters_before_past_end)
  qed
qed

text \<open>An out-of-credit visit with a non-negative counter and total leaves the counter at 0.\<close>

lemma emit_ooc_zero:
  assumes "emit s t = Num m" "m \<le> 0" "0 \<le> fst s" "0 \<le> t"
  shows "fst (advance s t) = 0"
  using assms by (cases s) (auto simp: emit_def advance_def split: if_splits)

text \<open>With non-negative totals of any size the debt of the counter stays below one day.\<close>

lemma advance_debt:
  assumes "- 1 < fst s" "0 \<le> t" shows "- 1 < fst (advance s t)"
  using assms by (cases s) (auto simp: advance_def)

lemma credit_debt_less_than_a_day:
  assumes "\<forall>d. 0 \<le> day_sum unittrans d"
  shows "- 1 < fst (counters_before unittrans startdate enddate installdate j)"
proof (induction j)
  case 0
  show ?case by (simp add: counters_before_def)
next
  case (Suc j)
  show ?case
  proof (cases "j < length (date_range startdate enddate)")
    case True
    from assms have "0 \<le> day_sum unittrans (date_range startdate enddate ! j)" by blast
    with Suc advance_debt show ?thesis by (simp add: counters_before_Suc [OF True])
  next
    case False
    with Suc show ?thesis by (simp add: counters_before_past_end)
  qed
qed

text \<open>
  Claim C9, as amended. If every daily top-up total is non-negative and is a whole number
  of days of credit (7 times the total is an integer, as it is for whole weeks), the
  counter \<open>dayscreditremaining\<close> is never negative when the walk reaches a day (position
  \<open>j\<close> of the frame); a day whose status is out of credit leaves the counter at exactly 0;
  so when a day out of credit is followed, in the simulated range and before the day of the
  earliest unlock row, by a day with a top-up total of \<open>w > 0\<close> weeks, the status of that
  day is CreditRemaining(7 * w).
\<close>

theorem credit_never_negative:
  assumes "\<forall>d. 0 \<le> day_sum unittrans d \<and> day_sum unittrans d * 7 \<in> \<int>"
  shows "0 \<le> fst (counters_before unittrans startdate enddate installdate j)
     \<and> (j < length (date_range startdate enddate)
          \<and> status_on (unitdailystatus unittrans startdate enddate installdate flag)
               (date_range startdate enddate ! j) = Some (Num m) \<and> m \<le> 0
        \<longrightarrow> fst (counters_before unittrans startdate enddate installdate (Suc j)) = 0)
     \<and> (status_on (unitdailystatus unittrans startdate enddate installdate flag) d = Some (Num m')
          \<and> m' \<le> 0
          \<and> d + timedelta 1 \<in> set (date_range startdate enddate)
          \<and> (\<forall>u. earliest_unlock_day unittrans = Some u \<longrightarrow> d + timedelta 1 < u)
          \<and> day_sum unittrans (d + timedelta 1) = w \<and> 0 < w
        \<longrightarrow> status_on (unitdailystatus unittrans startdate enddate installdate flag)
              (d + timedelta 1) = Some (Num (7 * w)))"
proof (intro conjI impI)
  let ?cb = "counters_before unittrans startdate enddate installdate"
  let ?h = "unitdailystatus unittrans startdate enddate installdate flag"
  have nn: "0 \<le> fst (?cb i)" for i using credit_nonneg [OF assms] by blast
  show "0 \<le> fst (?cb j)" by (rule nn)
  {
    assume a: "j < length (date_range startdate enddate)
          \<and> status_on ?h (date_range startdate enddate ! j) = Some (Num m) \<and> m \<le> 0"
    then have j: "j < length (date_range startdate enddate)" by simp
    from a have "unitstatus (dailyhistory_of unittrans startdate enddate installdate ! j) = Num m"
      using status_on_nth [OF j, of unittrans installdate flag] by simp
    from status_Num_walk [OF j this]
    have mk: "loop_mask unittrans enddate installdate (date_range startdate enddate ! j)"
      and e: "emit (?cb j) (day_sum unittrans (date_range startdate enddate ! j)) = Num m"
      by simp_all
    from assms have t: "0 \<le> day_sum unittrans (date_range startdate enddate ! j)" by blast
    from a have "m \<le> 0" by simp
    from emit_ooc_zero [OF e this nn t] mk
    show "fst (?cb (Suc j)) = 0" by (simp add: counters_before_Suc [OF j])
  }
  {
    assume a: "status_on ?h d = Some (Num m') \<and> m' \<le> 0
          \<and> d + timedelta 1 \<in> set (date_range startdate enddate)
          \<and> (\<forall>u. earliest_unlock_day unittrans = Some u \<longrightarrow> d + timedelta 1 < u)
          \<and> day_sum unittrans (d + timedelta 1) = w \<and> 0 < w"
    then have st: "status_on ?h d = Some (Num m')"
      and nx: "d + timedelta 1 \<in> set (date_range startdate enddate)"
      and ul: "\<forall>u. earliest_unlock_day unittrans = Some u \<longrightarrow> d + timedelta 1 < u"
      and w: "day_sum unittrans (d + timedelta 1) = w" "0 < w" and m': "m' \<le> 0"
      by simp_all
    from next_day_status [OF st nx ul] obtain i where
      e: "emit (?cb i) (day_sum unittrans d) = Num m'" and
      n: "status_on ?h (d + timedelta 1) =
            Some (emit (advance (?cb i) (day_sum unittrans d)) (day_sum unittrans (d + timedelta 1)))"
      by blast
    from assms have t: "0 \<le> day_sum unittrans d" by blast
    have z: "fst (advance (?cb i) (day_sum unittrans d)) = 0"
      using emit_ooc_zero [OF e m' nn t] .
    obtain c k where s: "advance (?cb i) (day_sum unittrans d) = (c, k)"
      by (cases "advance (?cb i) (day_sum unittrans d)")
    with z have "c = 0" by simp
    with n s w show "status_on ?h (d + timedelta 1) = Some (Num (7 * w))"
      by (simp add: emit_def)
  }
qed

theorem credit_never_negative_witness:
  "(\<forall>d. 0 \<le> day_sum [\<lparr>timestamp = 259300, unit_id = ''u1'', function_code = 3, topupvalue = PyInt 1\<rparr>] d
        \<and> day_sum [\<lparr>timestamp = 259300, unit_id = ''u1'', function_code = 3, topupvalue = PyInt 1\<rparr>] d * 7 \<in> \<int>)
   \<and> status_on (unitdailystatus [\<lparr>timestamp = 259300, unit_id = ''u1'', function_code = 3, topupvalue = PyInt 1\<rparr>]
        0 432000 (Some 0) False) 172800 = Some (Num (- 2))
   \<and> 0 \<le> fst (counters_before [\<lparr>timestamp = 259300, unit_id = ''u1'', function_code = 3, topupvalue = PyInt 1\<rparr>]
        0 432000 (Some 0) 2)
   \<and> fst (counters_before [\<lparr>timestamp = 259300, unit_id = ''u1'', function_code = 3, topupvalue = PyInt 1\<rparr>]
        0 432000 (Some 0) (Suc 2)) = 0
   \<and> status_on (unitdailystatus [\<lparr>timestamp = 259300, unit_id = ''u1'', function_code = 3, topupvalue = PyInt 1\<rparr>]
        0 432000 (Some 0) False) (172800 + timedelta 1) = Some (Num (7 * 1))"
proof -
  let ?e = "\<lparr>timestamp = 259300, unit_id = ''u1'', function_code = 3, topupvalue = PyInt 1\<rparr>"
  have h: "\<forall>d. 0 \<le> day_sum [?e] d \<and> day_sum [?e] d * 7 \<in> \<int>" by (simp add: day_sum_def)
  have a1: "2 < length (date_range 0 432000)" by code_simp
  have a2: "date_range 0 432000 ! 2 = 172800" by code_simp
  have a3: "status_on (unitdailystatus [?e] 0 432000 (Some 0) False) 172800 = Some (Num (- 2))"
    by code_simp
  have a4: "172800 + timedelta 1 \<in> set (date_range 0 432000)" by code_simp
  have "earliest_unlock_day [?e] = None" by code_simp
  then have a5: "\<forall>u. earliest_unlock_day [?e] = Some u \<longrightarrow> 172800 + timedelta 1 < u" by simp
  have a6: "day_sum [?e] (172800 + timedelta 1) = 1" by code_simp
  from credit_never_negative [OF h, where startdate = 0 and enddate = 432000
      and installdate = "Some 0" and j = 2 and flag = False and m = "- 2" and d = 172800
      and m' = "- 2" and w = 1] a1 a2 a3 a4 a5 a6 h
  show ?thesis by simp
qed

text \<open>
  For totals that are not whole days the claim fails. After a top-up of half a week on
  day 0 the statuses of days 0 to 3 are 3.5, 2.5, 1.5 and 0.5; the counter is then -0.5 at
  the start of day 4 and stays there while the unit is out of credit (status 0 on day 4,
  -1 on day 5), and a top-up of one week on day 6 gives the status 6.5, not 7. Day 5 also
  shows that a day of the streak with a top-up total of 0 has the status of the streak,
  -1, so the last part of the claim is about a total \<open>w > 0\<close>.
\<close>

theorem credit_never_negative_counterexample:
  "map (day_sum
      [\<lparr>timestamp = 100, unit_id = ''u1'', function_code = 3, topupvalue = PyFloat (1 / 2)\<rparr>,
       \<lparr>timestamp = 518500, unit_id = ''u1'', function_code = 3, topupvalue = PyInt 1\<rparr>])
     [0, 86400, 172800, 259200, 345600, 432000, 518400] = [1 / 2, 0, 0, 0, 0, 0, 1]
   \<and> counters_before
      [\<lparr>timestamp = 100, unit_id = ''u1'', function_code = 3, topupvalue = PyFloat (1 / 2)\<rparr>,
       \<lparr>timestamp = 518500, unit_id = ''u1'', function_code = 3, topupvalue = PyInt 1\<rparr>]
      0 604800 None 4 = (- (1 / 2), 0)
   \<and> status_on (unitdailystatus
      [\<lparr>timestamp = 100, unit_id = ''u1'', function_code = 3, topupvalue = PyFloat (1 / 2)\<rparr>,
       \<lparr>timestamp = 518500, unit_id = ''u1'', function_code = 3, topupvalue = PyInt 1\<rparr>]
      0 604800 None False) 345600 = Some (Num 0)
   \<and> counters_before
      [\<lparr>timestamp = 100, unit_id = ''u1'', function_code = 3, topupvalue = PyFloat (1 / 2)\<rparr>,
       \<lparr>timestamp = 518500, unit_id = ''u1'', function_code = 3, topupvalue = PyInt 1\<rparr>]
      0 604800 None 5 = (- (1 / 2), 1)
   \<and> status_on (unitdailystatus
      [\<lparr>timestamp = 100, unit_id = ''u1'', function_code = 3, topupvalue = PyFloat (1 / 2)\<rparr>,
       \<lparr>timestamp = 518500, unit_id = ''u1'', function_code = 3, topupvalue = PyInt 1\<rparr>]
      0 604800 None False) 432000 = Some (Num (- 1))
   \<and> Num (- 1) \<noteq> Num (7 * 0)
   \<and> counters_before
      [\<lparr>timestamp = 100, unit_id = ''u1'', function_code = 3, topupvalue = PyFloat (1 / 2)\<rparr>,
       \<lparr>timestamp = 518500, unit_id = ''u1'', function_code = 3, topupvalue = PyInt 1\<rparr>]
      0 604800 None 6 = (- (1 / 2), 2)
   \<and> status_on (unitdailystatus
      [\<lparr>timestamp = 100, unit_id = ''u1'', function_code = 3, topupvalue = PyFloat (1 / 2)\<rparr>,
       \<lparr>timestamp = 518500, unit_id = ''u1'', function_code = 3, topupvalue = PyInt 1\<rparr>]
      0 604800 None False) 518400 = Some (Num (13 / 2))
   \<and> Num (13 / 2) \<noteq> Num (7 * 1)"
  by code_simp

section \<open>Stock before the install date\<close>

lemma Min_date_range:
  assumes "a \<le> b" shows "Min (set (date_range a b)) = a"
proof (rule Min_eqI)
  show "finite (set (date_range a b))" by simp
  show "\<And>y. y \<in> set (date_range a b) \<Longrightarrow> a \<le> y" by (simp add: in_date_range_iff)
  from assms show "a \<in> set (date_range a b)" by (simp add: in_date_range_iff)
qed

lemma date_range_nonempty: "a \<le> b \<Longrightarrow> date_range a b \<noteq> []"
proof -
  assume "a \<le> b"
  then have "a \<in> set (date_range a b)" by (simp add: in_date_range_iff)
  then show ?thesis by auto
qed

lemma install_date_default:
  assumes "unittrans \<noteq> []"
  shows "install_date unittrans None =
           Some (dayofdatetime (Min (set (map timestamp unittrans))) False)"
proof -
  define lo where "lo = Min (set (map timestamp unittrans))"
  define hi where "hi = Max (set (map timestamp unittrans))"
  from assms have "timestamp (hd unittrans) \<in> set (map timestamp unittrans)" by simp
  then have "lo \<le> timestamp (hd unittrans)" and "timestamp (hd unittrans) \<le> hi"
    unfolding lo_def hi_def by (simp_all only: Min_le Max_ge List.finite_set)
  then have "lo \<le> hi" by linarith
  then have le: "dayofdatetime lo False \<le> dayofdatetime hi False" by (rule dayofdatetime_mono)
  from assms have "map fst (resample_d_sum unittrans) =
      date_range (dayofdatetime lo False) (dayofdatetime hi False)"
    by (simp add: resample_d_sum_def index_min_def index_max_def lo_def hi_def o_def)
  with Min_date_range [OF le] date_range_nonempty [OF le] show ?thesis
    by (simp add: install_date_def index_min_def lo_def)
qed

text \<open>
  Claim C5, as amended. The install date is the one given, and when none is given it is the
  calendar day of the unit's earliest row. Every day of the simulated range that is strictly
  before the install date, and strictly before the day of the unit's earliest unlock row if
  the unit has one, has status Stock; this holds also when the install date is given and is
  after the unit's first row, so that days with transactions before it are Stock.
\<close>

theorem stock_before_install:
  "(unittrans \<noteq> [] \<longrightarrow>
      install_date unittrans None = Some (dayofdatetime (Min (set (map timestamp unittrans))) False))
   \<and> install_date unittrans (Some i) = Some i
   \<and> (d \<in> set (date_range startdate enddate)
        \<and> install_date unittrans installdate = Some i' \<and> d < i'
        \<and> (\<forall>u. earliest_unlock_day unittrans = Some u \<longrightarrow> d < u)
      \<longrightarrow> status_on (unitdailystatus unittrans startdate enddate installdate flag) d = Some Stock)"
proof (intro conjI impI)
  show "install_date unittrans None = Some (dayofdatetime (Min (set (map timestamp unittrans))) False)"
    if "unittrans \<noteq> []" using that by (rule install_date_default)
  show "install_date unittrans (Some i) = Some i" by (simp add: install_date_def)
  assume a: "d \<in> set (date_range startdate enddate)
        \<and> install_date unittrans installdate = Some i' \<and> d < i'
        \<and> (\<forall>u. earliest_unlock_day unittrans = Some u \<longrightarrow> d < u)"
  then obtain j where j: "j < length (date_range startdate enddate)"
    and dj: "date_range startdate enddate ! j = d"
    using in_date_range_pos by blast
  from a have "d \<le> enddate" by (simp add: in_date_range_iff)
  with a have "\<not> index_ge d (index_min (map timestamp (unlocks unittrans)))"
    and "d < loop_unlockdate unittrans enddate"
    using before_earliest_unlock by blast+
  moreover from a have "\<not> loop_mask unittrans enddate installdate d"
    and "index_lt d (install_date unittrans installdate)" by (simp_all add: loop_mask_def)
  ultimately have "unitstatus (dailyhistory_of unittrans startdate enddate installdate ! j) = Stock"
    using dj by (simp add: dailyhistory_of_nth [OF j])
  with status_on_nth [OF j, of unittrans installdate flag] dj
  show "status_on (unitdailystatus unittrans startdate enddate installdate flag) d = Some Stock"
    by simp
qed

theorem stock_before_install_witness:
  "install_date [\<lparr>timestamp = 86500, unit_id = ''u1'', function_code = 3, topupvalue = PyInt 1\<rparr>] None
      = Some 86400
   \<and> install_date [\<lparr>timestamp = 86500, unit_id = ''u1'', function_code = 3, topupvalue = PyInt 1\<rparr>]
        (Some 259200) = Some 259200
   \<and> 86400 \<in> set (date_range 0 345600) \<and> (86400 :: int) < 259200
   \<and> earliest_unlock_day [\<lparr>timestamp = 86500, unit_id = ''u1'', function_code = 3, topupvalue = PyInt 1\<rparr>]
        = None
   \<and> status_on (unitdailystatus [\<lparr>timestamp = 86500, unit_id = ''u1'', function_code = 3, topupvalue = PyInt 1\<rparr>]
        0 345600 (Some 259200) False) 86400 = Some Stock"
proof -
  let ?e = "\<lparr>timestamp = 86500, unit_id = ''u1'', function_code = 3, topupvalue = PyInt 1\<rparr>"
  have a0: "[?e] \<noteq> []" by simp
  have a1: "86400 \<in> set (date_range 0 345600)" by code_simp
  have a2: "install_date [?e] (Some 259200) = Some 259200" by code_simp
  have a3: "earliest_unlock_day [?e] = None" by code_simp
  have a4: "dayofdatetime (Min (set (map timestamp [?e]))) False = 86400" by code_simp
  from stock_before_install [where unittrans = "[?e]" and i = 259200 and d = 86400
      and startdate = 0 and enddate = 345600 and installdate = "Some 259200" and i' = 259200
      and flag = False] a0 a1 a2 a3 a4
  show ?thesis by simp
qed

text \<open>
  Without the condition on the unlock row the claim fails: a unit whose unlock row is on
  day 1 and whose install date is given as day 3 is Unlocked, not Stock, on day 1 (lines
  171 and 206 write 'U' over the 'S' of line 165).
\<close>

theorem stock_before_install_counterexample:
  "86400 \<in> set (date_range 0 345600)
   \<and> install_date [\<lparr>timestamp = 86500, unit_id = ''u1'', function_code = 5, topupvalue = PyNone\<rparr>]
        (Some 259200) = Some 259200
   \<and> (86400 :: int) < 259200
   \<and> status_on (unitdailystatus [\<lparr>timestamp = 86500, unit_id = ''u1'', function_code = 5, topupvalue = PyNone\<rparr>]
        0 345600 (Some 259200) False) 86400 = Some Unlocked
   \<and> status_on (unitdailystatus [\<lparr>timestamp = 86500, unit_id = ''u1'', function_code = 5, topupvalue = PyNone\<rparr>]
        0 345600 (Some 259200) False) 86400 \<noteq> Some Stock"
  by code_simp

section \<open>A unit without rows\<close>

lemma day_sum_Nil: "day_sum [] d = 0"
  by (simp add: day_sum_def)

text \<open>
  Claim C7, as amended. For a unit without rows and without a given install date the
  simulator returns a frame over every day of the range in which no status is set: the
  install date is NaT, no day is before it, none is on or after it, and neither 'S' nor a
  number nor 'U' is written (the daily totals, when kept, are 0).
\<close>

theorem no_events_no_status:
  "unitdailystatus [] startdate enddate None flag =
     map (\<lambda>d. (d, if flag = False then None else Some 0, NaN)) (date_range startdate enddate)"
proof (rule nth_equalityI)
  show "length (unitdailystatus [] startdate enddate None flag) =
        length (map (\<lambda>d. (d, if flag = False then None else Some 0, NaN)) (date_range startdate enddate))"
    by (simp add: unitdailystatus_eq length_dailyhistory_of)
next
  fix j assume "j < length (unitdailystatus [] startdate enddate None flag)"
  then have j: "j < length (date_range startdate enddate)"
    by (simp add: unitdailystatus_eq length_dailyhistory_of)
  have "install_date [] None = None"
    by (simp add: install_date_def resample_d_sum_def index_min_def)
  then have "unitstatus (dailyhistory_of [] startdate enddate None ! j) = NaN"
    by (simp add: dailyhistory_of_nth [OF j] unlocks_def index_min_def loop_mask_def)
  with j show "unitdailystatus [] startdate enddate None flag ! j =
      map (\<lambda>d. (d, if flag = False then None else Some 0, NaN)) (date_range startdate enddate) ! j"
    by (simp add: unitdailystatus_eq length_dailyhistory_of dailyhistory_of_nth [OF j] day_sum_Nil)
qed

text \<open>So the history of such a unit is not Stock on every day, as the claim has it.\<close>

theorem no_events_counterexample:
  "unitdailystatus [] 0 172800 None False = [(0, None, NaN), (86400, None, NaN), (172800, None, NaN)]
   \<and> status_on (unitdailystatus [] 0 172800 None False) 86400 \<noteq> Some Stock"
  by code_simp

section \<open>The unlock override\<close>

text \<open>
  Claim C1 says that every day from the calendar day of the earliest unlock row on is
  Unlocked, and that later unlock rows change nothing. The code takes the first unlock row
  in row order for the bound of the walk (line 169) and the earliest unlock timestamp,
  not truncated to its day, for the final overwrite (line 204). On a unit whose rows are
  not in timestamp order, with an unlock row at noon of day 3 followed by one at noon of day 1, the
  day of the earliest unlock row is day 1, and the status of day 1 is the number 0 (out of
  credit), not Unlocked; without the later unlock row, day 1 is Unlocked.
\<close>

theorem unlock_first_recorded_not_earliest:
  "earliest_unlock_day
     [\<lparr>timestamp = 302400, unit_id = ''u1'', function_code = 5, topupvalue = PyNone\<rparr>,
      \<lparr>timestamp = 129600, unit_id = ''u1'', function_code = 5, topupvalue = PyNone\<rparr>] = Some 86400
   \<and> unitdailystatus
     [\<lparr>timestamp = 302400, unit_id = ''u1'', function_code = 5, topupvalue = PyNone\<rparr>,
      \<lparr>timestamp = 129600, unit_id = ''u1'', function_code = 5, topupvalue = PyNone\<rparr>]
     0 432000 None False =
     [(0, None, Stock), (86400, None, Num 0), (172800, None, Unlocked),
      (259200, None, Unlocked), (345600, None, Unlocked), (432000, None, Unlocked)]
   \<and> unitdailystatus
     [\<lparr>timestamp = 129600, unit_id = ''u1'', function_code = 5, topupvalue = PyNone\<rparr>]
     0 432000 None False =
     [(0, None, Stock), (86400, None, Unlocked), (172800, None, Unlocked),
      (259200, None, Unlocked), (345600, None, Unlocked), (432000, None, Unlocked)]"
  by code_simp

lemma hd_sorted_Min:
  assumes "sorted xs" "xs \<noteq> []" shows "Min (set xs) = hd xs"
proof (rule Min_eqI)
  show "finite (set xs)" by simp
  from assms show "\<And>y. y \<in> set xs \<Longrightarrow> hd xs \<le> y" by (cases xs) auto
  from assms show "hd xs \<in> set xs" by simp
qed

text \<open>When the rows of the unit are in timestamp order, the first recorded unlock row is
  the earliest one, and every day from its calendar day on is Unlocked.\<close>
lemma unlock_override_in_timestamp_order:
  assumes so: "sorted (map timestamp unittrans)"
      and eu: "earliest_unlock_day unittrans = Some u"
      and d: "d \<in> set (date_range startdate enddate)" and ud: "u \<le> d"
  shows "status_on (unitdailystatus unittrans startdate enddate installdate flag) d = Some Unlocked"
proof -
  from eu have ne: "unlocks unittrans \<noteq> []"
    by (auto simp: earliest_unlock_day_def index_min_def split: if_splits)
  from so have "sorted (map timestamp (unlocks unittrans))"
    unfolding unlocks_def by (rule sorted_filter)
  with ne have "Min (set (map timestamp (unlocks unittrans))) = hd (map timestamp (unlocks unittrans))"
    by (intro hd_sorted_Min) simp_all
  with ne have "Min (set (map timestamp (unlocks unittrans))) = timestamp (hd (unlocks unittrans))"
    by (simp add: hd_map)
  with eu ne have lu: "loop_unlockdate unittrans enddate = u"
    by (simp add: earliest_unlock_day_def index_min_def loop_unlockdate_def del: set_map)
  from d obtain j where j: "j < length (date_range startdate enddate)"
    and dj: "date_range startdate enddate ! j = d"
    by (rule in_date_range_pos)
  from lu ud ne have "unitstatus (dailyhistory_of unittrans startdate enddate installdate ! j) = Unlocked"
    by (simp add: dailyhistory_of_nth [OF j] dj loop_mask_def)
  with status_on_nth [OF j, of unittrans installdate flag] dj show ?thesis by simp
qed

section \<open>The scenario of one week of credit\<close>

lemma counters_before_outside_mask:
  assumes "\<forall>j < m. \<not> loop_mask unittrans enddate installdate (date_range startdate enddate ! j)"
  shows "counters_before unittrans startdate enddate installdate m = (0, 0)"
  using assms
proof (induction m)
  case 0
  show ?case by (simp add: counters_before_def)
next
  case (Suc m)
  then have ih: "counters_before unittrans startdate enddate installdate m = (0, 0)" by simp
  show ?case
  proof (cases "m < length (date_range startdate enddate)")
    case True
    with Suc.prems ih show ?thesis by (simp add: counters_before_Suc [OF True])
  next
    case False
    with ih show ?thesis by (simp add: counters_before_past_end)
  qed
qed

text \<open>The status of a visited day and the counters it leaves.\<close>
lemma visited_day:
  assumes j: "j < length (date_range startdate enddate)"
      and m: "loop_mask unittrans enddate installdate (date_range startdate enddate ! j)"
      and u: "\<not> index_ge (date_range startdate enddate ! j) (index_min (map timestamp (unlocks unittrans)))"
  shows "status_on (unitdailystatus unittrans startdate enddate installdate flag)
           (date_range startdate enddate ! j) =
         Some (emit (counters_before unittrans startdate enddate installdate j)
                    (day_sum unittrans (date_range startdate enddate ! j)))"
    and "counters_before unittrans startdate enddate installdate (Suc j) =
         advance (counters_before unittrans startdate enddate installdate j)
                 (day_sum unittrans (date_range startdate enddate ! j))"
  using m u by (simp_all add: status_on_nth [OF j] dailyhistory_of_nth [OF j] counters_before_Suc [OF j])

text \<open>
  Claim C2. A unit whose only row is a top-up of 1 week (the integer 1 or the float 1.0 in
  the column, with a function code that is not an unlock) on day 0, installed
  on day 0 (by default or explicitly), simulated from day 0 or from any number \<open>m\<close> of days
  before it up to an end date not before day 9, has on days 0 to 6 the statuses
  7, 6, 5, 4, 3, 2, 1 (credit remaining), on day 7 the status 0 (out of credit, streak 0),
  on day 8 the status -1 and on day 9 the status -2.
\<close>

theorem one_week_scenario:
  assumes ev: "unittrans = [\<lparr>timestamp = t, unit_id = u, function_code = c, topupvalue = v\<rparr>]"
      and wk: "astype_float v = PyFloat 1"
      and c5: "c \<noteq> 5"
      and d0: "day0 = dayofdatetime t False"
      and ins: "installdate = None \<or> installdate = Some day0"
      and sd: "startdate = day0 - timedelta (int m)"
      and en: "day0 + timedelta 9 \<le> enddate"
  shows "map (status_on (unitdailystatus unittrans startdate enddate installdate flag))
           [day0, day0 + timedelta 1, day0 + timedelta 2, day0 + timedelta 3, day0 + timedelta 4,
            day0 + timedelta 5, day0 + timedelta 6, day0 + timedelta 7, day0 + timedelta 8,
            day0 + timedelta 9]
       = [Some (Num 7), Some (Num 6), Some (Num 5), Some (Num 4), Some (Num 3), Some (Num 2),
          Some (Num 1), Some (Num 0), Some (Num (- 1)), Some (Num (- 2))]"
proof -
  let ?ix = "date_range startdate enddate"
  let ?cb = "counters_before unittrans startdate enddate installdate"
  let ?st = "status_on (unitdailystatus unittrans startdate enddate installdate flag)"
  have ul: "unlocks unittrans = []" using ev c5 by (simp add: unlocks_def)
  have "install_date unittrans None = Some day0"
    using install_date_default [of unittrans] ev d0 by simp
  with ins have inst: "install_date unittrans installdate = Some day0"
    by (auto simp: install_date_def)
  have ds: "\<And>d. day_sum unittrans d = (if d = day0 then 1 else 0)"
    using ev d0 wk by (simp add: day_sum_def)
  have "86400 * (int m + 9) \<le> enddate - startdate"
    using sd en by (simp add: timedelta_def)
  then have "(86400 * (int m + 9)) div 86400 \<le> (enddate - startdate) div 86400"
    by (rule zdiv_mono1) simp
  then have len: "m + 9 < length ?ix" by (simp add: length_date_range)
  have nth: "?ix ! (m + k) = day0 + timedelta (int k)" if "k \<le> 9" for k
    using that len sd by (simp add: nth_date_range timedelta_def)
  have pre: "\<forall>j < m. \<not> loop_mask unittrans enddate installdate (?ix ! j)"
  proof (intro allI impI)
    fix j assume "j < m"
    with len sd have "?ix ! j < day0" by (simp add: nth_date_range timedelta_def)
    then show "\<not> loop_mask unittrans enddate installdate (?ix ! j)"
      by (simp add: loop_mask_def inst)
  qed
  have c0: "?cb (m + 0) = (0, 0)"
    using counters_before_outside_mask [OF pre] by simp
  have step: "?st (day0 + timedelta (int k)) = Some (emit s (if k = 0 then 1 else 0))
              \<and> ?cb (m + Suc k) = advance s (if k = 0 then 1 else 0)"
    if k: "k \<le> 9" and s: "?cb (m + k) = s" for k s
  proof -
    from k len have j: "m + k < length ?ix" by simp
    from k en have "day0 + timedelta (int k) < enddate + timedelta 365"
      by (simp add: timedelta_def)
    then have mk: "loop_mask unittrans enddate installdate (?ix ! (m + k))"
      by (simp add: nth [OF k] loop_mask_def inst loop_unlockdate_def ul timedelta_def)
    have un: "\<not> index_ge (?ix ! (m + k)) (index_min (map timestamp (unlocks unittrans)))"
      by (simp add: ul index_min_def)
    from visited_day(1) [OF j mk un, of flag] visited_day(2) [OF j mk un] s show ?thesis
      by (simp add: nth [OF k] ds timedelta_def)
  qed
  from step [OF _ c0] have s0: "?st day0 = Some (Num 7)" and c1: "?cb (m + 1) = (6, 0)"
    by (simp_all add: emit_def advance_def timedelta_def)
  from step [OF _ c1] have s1: "?st (day0 + timedelta 1) = Some (Num 6)" and c2: "?cb (m + 2) = (5, 0)"
    by (simp_all add: emit_def advance_def numeral_2_eq_2)
  from step [OF _ c2] have s2: "?st (day0 + timedelta 2) = Some (Num 5)" and c3: "?cb (m + 3) = (4, 0)"
    by (simp_all add: emit_def advance_def)
  from step [OF _ c3] have s3: "?st (day0 + timedelta 3) = Some (Num 4)" and c4: "?cb (m + 4) = (3, 0)"
    by (simp_all add: emit_def advance_def)
  from step [OF _ c4] have s4: "?st (day0 + timedelta 4) = Some (Num 3)" and c5: "?cb (m + 5) = (2, 0)"
    by (simp_all add: emit_def advance_def)
  from step [OF _ c5] have s5: "?st (day0 + timedelta 5) = Some (Num 2)" and c6: "?cb (m + 6) = (1, 0)"
    by (simp_all add: emit_def advance_def)
  from step [OF _ c6] have s6: "?st (day0 + timedelta 6) = Some (Num 1)" and c7: "?cb (m + 7) = (0, 0)"
    by (simp_all add: emit_def advance_def)
  from step [OF _ c7] have s7: "?st (day0 + timedelta 7) = Some (Num 0)" and c8: "?cb (m + 8) = (0, 1)"
    by (simp_all add: emit_def advance_def)
  from step [OF _ c8] have s8: "?st (day0 + timedelta 8) = Some (Num (- 1))" and c9: "?cb (m + 9) = (0, 2)"
    by (simp_all add: emit_def advance_def)
  from step [OF _ c9] have s9: "?st (day0 + timedelta 9) = Some (Num (- 2))"
    by (simp_all add: emit_def advance_def)
  from s0 s1 s2 s3 s4 s5 s6 s7 s8 s9 show ?thesis by simp
qed

theorem one_week_scenario_witness:
  "astype_float (PyInt 1) = PyFloat 1
   \<and> (3 :: int) \<noteq> 5 \<and> 0 = dayofdatetime 100 False \<and> (0 :: int) = 0 - timedelta (int 0)
   \<and> 0 + timedelta 9 \<le> 1000000
   \<and> map (status_on (unitdailystatus
              [\<lparr>timestamp = 100, unit_id = ''u1'', function_code = 3, topupvalue = PyInt 1\<rparr>]
              0 1000000 None False))
        [0, 0 + timedelta 1, 0 + timedelta 2, 0 + timedelta 3, 0 + timedelta 4,
         0 + timedelta 5, 0 + timedelta 6, 0 + timedelta 7, 0 + timedelta 8, 0 + timedelta 9]
     = [Some (Num 7), Some (Num 6), Some (Num 5), Some (Num 4), Some (Num 3), Some (Num 2),
        Some (Num 1), Some (Num 0), Some (Num (- 1)), Some (Num (- 2))]"
proof -
  have h1: "astype_float (PyInt 1) = PyFloat 1" by simp
  have h2: "(3 :: int) \<noteq> 5" by simp
  have h3: "0 = dayofdatetime 100 False" by code_simp
  have h4: "None = None \<or> None = Some (0 :: int)" by simp
  have h5: "(0 :: int) = 0 - timedelta (int 0)" by code_simp
  have h6: "0 + timedelta 9 \<le> 1000000" by code_simp
  from one_week_scenario [OF refl h1 h2 h3 h4 h5 h6, of "''u1''" False] h1 h2 h3 h5 h6
  show ?thesis by blast
qed

section \<open>The unit history table\<close>

lemma fold_add_unit:
  assumes "\<forall>g \<in> set gs. snd g \<noteq> []"
  shows "fold (add_unit startdate enddate) gs table =
     table\<lparr>uht_columns := uht_columns table @
        map (\<lambda>g. (fst g, unit_column startdate enddate (uht_index table) (snd g))) gs\<rparr>"
  using assms
proof (induction gs arbitrary: table)
  case Nil
  show ?case by simp
next
  case (Cons g gs)
  obtain u tr where g: "g = (u, tr)" by (cases g)
  with Cons.prems have "tr \<noteq> []" by simp
  then have "add_unit startdate enddate g table =
      table\<lparr>uht_columns := uht_columns table @
        [(u, unit_column startdate enddate (uht_index table) tr)]\<rparr>"
    by (simp add: add_unit_def g join_left_def unit_column_def unitdailystatus_def
          split: prod.splits)
  moreover from Cons.prems have "\<forall>g \<in> set gs. snd g \<noteq> []" by simp
  ultimately show ?case by (simp add: Cons.IH g)
qed

lemma map_status_unitdailystatus:
  "map (snd \<circ> snd) (unitdailystatus unittrans startdate enddate installdate flag) =
   map unitstatus (dailyhistory_of unittrans startdate enddate installdate)"
  by (simp add: unitdailystatus_eq)

lemma unit_column_date_range:
  "unit_column startdate enddate (date_range startdate enddate) unittrans =
     map (snd \<circ> snd) (unitdailystatus unittrans startdate enddate None False)"
  unfolding map_status_unitdailystatus
proof (rule nth_equalityI)
  show "length (unit_column startdate enddate (date_range startdate enddate) unittrans) =
        length (map unitstatus (dailyhistory_of unittrans startdate enddate None))"
    by (simp add: unit_column_def length_dailyhistory_of)
next
  fix j assume "j < length (unit_column startdate enddate (date_range startdate enddate) unittrans)"
  then have j: "j < length (date_range startdate enddate)" by (simp add: unit_column_def)
  then show "unit_column startdate enddate (date_range startdate enddate) unittrans ! j =
      map unitstatus (dailyhistory_of unittrans startdate enddate None) ! j"
    by (simp add: unit_column_def status_on_nth [OF j] length_dailyhistory_of)
qed

lemma groupby_keys:
  "map fst (groupby_unit_id translog) = sort (remdups (map unit_id translog))"
  by (simp add: groupby_unit_id_def o_def)

lemma groupby_nonempty: "\<forall>g \<in> set (groupby_unit_id translog). snd g \<noteq> []"
  by (auto simp: groupby_unit_id_def filter_empty_conv)

lemma columns_of_table:
  assumes "startdate_of translog = Some startdate" "enddate_of translog = Some enddate"
  shows "unithistorytable translog =
     Some \<lparr>uht_index = date_range startdate enddate,
           uht_columns = map (\<lambda>u. (u, map (snd \<circ> snd)
               (unitdailystatus (filter (\<lambda>e. unit_id e = u) translog) startdate enddate None False)))
             (sort (remdups (map unit_id translog)))\<rparr>"
  using assms
  by (simp add: unithistorytable_def fold_add_unit [OF groupby_nonempty] unit_column_date_range)
     (simp add: groupby_unit_id_def o_def)

lemma column_of_table:
  assumes "startdate_of translog = Some startdate" "enddate_of translog = Some enddate"
      and "unithistorytable translog = Some table"
  shows "column table u =
     (if u \<in> unit_id ` set translog
      then Some (map (snd \<circ> snd)
             (unitdailystatus (filter (\<lambda>e. unit_id e = u) translog) startdate enddate None False))
      else None)"
proof -
  from columns_of_table [OF assms(1,2)] assms(3)
  have "uht_columns table = map (\<lambda>u. (u, map (snd \<circ> snd)
               (unitdailystatus (filter (\<lambda>e. unit_id e = u) translog) startdate enddate None False)))
             (sort (remdups (map unit_id translog)))" by auto
  then show ?thesis by (simp add: column_def map_of_graph)
qed

lemma day_shift_mod: "(d - 86400 * q) mod 86400 = d mod (86400 :: int)"
proof -
  have "d - 86400 * q = d + 86400 * (- q)" by simp
  then show ?thesis by (simp only: mod_mult_self2)
qed

lemma startdate_enddate:
  assumes "translog \<noteq> []"
  shows "startdate_of translog = Some (dayofdatetime (Min (set (map timestamp translog))) False)"
    and "enddate_of translog = Some (dayofdatetime (Max (set (map timestamp translog))) False + timedelta 1)"
  using assms by (simp_all add: startdate_of_def enddate_of_def index_min_def index_max_def)

lemma set_date_range_midnight:
  assumes "a mod 86400 = 0"
  shows "set (date_range a b) = {d. a \<le> d \<and> d \<le> b \<and> d mod 86400 = 0}"
proof -
  from assms have "a = 86400 * (a div 86400)"
    by (metis mult_div_mod_eq add.right_neutral)
  then have "\<And>d. (d - a) mod 86400 = d mod 86400" by (metis day_shift_mod)
  then show ?thesis by (auto simp: in_date_range_iff)
qed

text \<open>
  Claim C6. For a log with at least one row, the start date of the script is midnight of
  the day of the earliest row of the whole log, the end date is midnight of the day after
  the latest row, and the index of the table is the date range from the start date to the
  end date: it holds, once each, exactly the midnights from the start date to the end date
  inclusive, among them the day of the latest row.
\<close>

theorem date_axis:
  assumes ne: "translog \<noteq> []"
      and sd: "startdate = dayofdatetime (Min (set (map timestamp translog))) False"
      and ed: "enddate = dayofdatetime (Max (set (map timestamp translog))) False + timedelta 1"
  shows "startdate_of translog = Some startdate \<and> enddate_of translog = Some enddate
     \<and> (\<exists>table. unithistorytable translog = Some table
           \<and> uht_index table = date_range startdate enddate
           \<and> distinct (uht_index table)
           \<and> set (uht_index table) = {d. startdate \<le> d \<and> d \<le> enddate \<and> d mod 86400 = 0}
           \<and> dayofdatetime (Max (set (map timestamp translog))) False \<in> set (uht_index table)
           \<and> enddate \<in> set (uht_index table))"
proof -
  define lo where "lo = Min (set (map timestamp translog))"
  define hi where "hi = Max (set (map timestamp translog))"
  have s: "startdate_of translog = Some startdate" and e: "enddate_of translog = Some enddate"
    unfolding sd ed by (rule startdate_enddate [OF ne])+
  from ne have "timestamp (hd translog) \<in> set (map timestamp translog)" by simp
  then have "lo \<le> timestamp (hd translog)" and "timestamp (hd translog) \<le> hi"
    unfolding lo_def hi_def by (simp_all only: Min_le Max_ge List.finite_set)
  then have "lo \<le> hi" by linarith
  then have le: "dayofdatetime lo False \<le> dayofdatetime hi False" by (rule dayofdatetime_mono)
  have m0: "startdate mod 86400 = 0" unfolding sd by (rule dayofdatetime_mod)
  have hm: "dayofdatetime hi False mod 86400 = 0" by (rule dayofdatetime_mod)
  have em: "enddate mod 86400 = 0" unfolding ed hi_def [symmetric] using hm
    by (simp add: timedelta_def)
  have set_eq: "set (date_range startdate enddate) =
      {d. startdate \<le> d \<and> d \<le> enddate \<and> d mod 86400 = 0}"
    using m0 by (rule set_date_range_midnight)
  have last: "dayofdatetime hi False \<in> set (date_range startdate enddate)"
    unfolding set_eq using le hm by (simp add: sd ed lo_def hi_def timedelta_def)
  have endin: "enddate \<in> set (date_range startdate enddate)"
    unfolding set_eq using le em by (simp add: sd ed lo_def hi_def timedelta_def)
  from columns_of_table [OF s e] set_eq last endin s e show ?thesis
    by (simp add: distinct_date_range hi_def)
qed

theorem date_axis_witness:
  "[\<lparr>timestamp = 100, unit_id = ''b'', function_code = 3, topupvalue = PyInt 1\<rparr>,
    \<lparr>timestamp = 172900, unit_id = ''a'', function_code = 4, topupvalue = PyInt 4\<rparr>] \<noteq> []
   \<and> startdate_of [\<lparr>timestamp = 100, unit_id = ''b'', function_code = 3, topupvalue = PyInt 1\<rparr>,
    \<lparr>timestamp = 172900, unit_id = ''a'', function_code = 4, topupvalue = PyInt 4\<rparr>] = Some 0
   \<and> enddate_of [\<lparr>timestamp = 100, unit_id = ''b'', function_code = 3, topupvalue = PyInt 1\<rparr>,
    \<lparr>timestamp = 172900, unit_id = ''a'', function_code = 4, topupvalue = PyInt 4\<rparr>] = Some 259200
   \<and> map_option uht_index (unithistorytable
     [\<lparr>timestamp = 100, unit_id = ''b'', function_code = 3, topupvalue = PyInt 1\<rparr>,
      \<lparr>timestamp = 172900, unit_id = ''a'', function_code = 4, topupvalue = PyInt 4\<rparr>])
     = Some [0, 86400, 172800, 259200]"
proof -
  let ?log = "[\<lparr>timestamp = 100, unit_id = ''b'', function_code = 3, topupvalue = PyInt 1\<rparr>,
    \<lparr>timestamp = 172900, unit_id = ''a'', function_code = 4, topupvalue = PyInt 4\<rparr>]"
  have ne: "?log \<noteq> []" by simp
  have sd: "0 = dayofdatetime (Min (set (map timestamp ?log))) False" by code_simp
  have ed: "259200 = dayofdatetime (Max (set (map timestamp ?log))) False + timedelta 1" by code_simp
  have dr: "date_range 0 259200 = [0, 86400, 172800, 259200]" by code_simp
  from date_axis [OF ne sd ed] ne dr show ?thesis by auto
qed

text \<open>
  Claim C10. Joining a unit's history into the table keeps the index, appends exactly one
  column, named by the unit identifier, and leaves the column of every other identifier as
  it was; the new column holds the statuses of the history by date. After the loop of the
  script the column names are distinct, and the column of each unit of the log is exactly
  the status sequence that \<open>unitdailystatus\<close> returns for the rows of that unit with the
  dates of the script; an identifier that is not in the log has no column.
\<close>

theorem merge_unit_column:
  "uht_index (join_left table unitID unithist) = uht_index table
   \<and> map fst (uht_columns (join_left table unitID unithist)) = map fst (uht_columns table) @ [unitID]
   \<and> (u \<noteq> unitID \<longrightarrow> column (join_left table unitID unithist) u = column table u)
   \<and> (column table unitID = None \<longrightarrow>
        column (join_left table unitID unithist) unitID =
          Some (map (\<lambda>d. case status_on unithist d of None \<Rightarrow> NaN | Some s \<Rightarrow> s) (uht_index table)))
   \<and> (startdate_of translog = Some startdate \<and> enddate_of translog = Some enddate
        \<and> unithistorytable translog = Some t
      \<longrightarrow> distinct (map fst (uht_columns t))
          \<and> column t u' =
            (if u' \<in> unit_id ` set translog
             then Some (map (snd \<circ> snd)
                    (unitdailystatus (filter (\<lambda>e. unit_id e = u') translog) startdate enddate None False))
             else None))"
proof (intro conjI impI)
  show "uht_index (join_left table unitID unithist) = uht_index table"
    by (simp add: join_left_def)
  show "map fst (uht_columns (join_left table unitID unithist)) = map fst (uht_columns table) @ [unitID]"
    by (simp add: join_left_def)
  show "column (join_left table unitID unithist) u = column table u" if "u \<noteq> unitID"
    using that by (simp add: join_left_def column_def map_add_def split: option.splits)
  show "column (join_left table unitID unithist) unitID =
          Some (map (\<lambda>d. case status_on unithist d of None \<Rightarrow> NaN | Some s \<Rightarrow> s) (uht_index table))"
    if "column table unitID = None"
    using that by (simp add: join_left_def column_def map_add_def)
next
  assume a: "startdate_of translog = Some startdate \<and> enddate_of translog = Some enddate
        \<and> unithistorytable translog = Some t"
  then have s: "startdate_of translog = Some startdate" and e: "enddate_of translog = Some enddate"
    and t: "unithistorytable translog = Some t" by simp_all
  from columns_of_table [OF s e] t
  have "map fst (uht_columns t) = sort (remdups (map unit_id translog))"
    by (auto simp: o_def)
  then show "distinct (map fst (uht_columns t))" by simp
  from column_of_table [OF s e t]
  show "column t u' =
            (if u' \<in> unit_id ` set translog
             then Some (map (snd \<circ> snd)
                    (unitdailystatus (filter (\<lambda>e. unit_id e = u') translog) startdate enddate None False))
             else None)" .
qed

theorem merge_unit_column_witness:
  "''a'' \<noteq> ''b''
   \<and> column \<lparr>uht_index = [0, 86400], uht_columns = [(''a'', [Stock, Num 7])]\<rparr> ''b'' = None
   \<and> column (join_left \<lparr>uht_index = [0, 86400], uht_columns = [(''a'', [Stock, Num 7])]\<rparr> ''b''
         [(0, None, Num 28), (86400, None, Num 27)]) ''a'' = Some [Stock, Num 7]
   \<and> column (join_left \<lparr>uht_index = [0, 86400], uht_columns = [(''a'', [Stock, Num 7])]\<rparr> ''b''
         [(0, None, Num 28), (86400, None, Num 27)]) ''b'' = Some [Num 28, Num 27]
   \<and> unithistorytable
        [\<lparr>timestamp = 100, unit_id = ''b'', function_code = 3, topupvalue = PyInt 1\<rparr>,
         \<lparr>timestamp = 172900, unit_id = ''a'', function_code = 4, topupvalue = PyInt 4\<rparr>]
      = Some \<lparr>uht_index = [0, 86400, 172800, 259200],
              uht_columns = [(''a'', [Stock, Stock, Num 28, Num 27]),
                             (''b'', [Num 7, Num 6, Num 5, Num 4])]\<rparr>
   \<and> map (snd \<circ> snd) (unitdailystatus
        [\<lparr>timestamp = 100, unit_id = ''b'', function_code = 3, topupvalue = PyInt 1\<rparr>]
        0 259200 None False) = [Num 7, Num 6, Num 5, Num 4]"
proof -
  let ?T = "\<lparr>uht_index = [0, 86400], uht_columns = [(''a'', [Stock, Num 7])]\<rparr>"
  let ?H = "[(0, None, Num 28), (86400, None, Num 27)] :: (datetime \<times> rat option \<times> status) list"
  let ?log = "[\<lparr>timestamp = 100, unit_id = ''b'', function_code = 3, topupvalue = PyInt 1\<rparr>,
         \<lparr>timestamp = 172900, unit_id = ''a'', function_code = 4, topupvalue = PyInt 4\<rparr>]"
  let ?TT = "\<lparr>uht_index = [0, 86400, 172800, 259200],
              uht_columns = [(''a'', [Stock, Stock, Num 28, Num 27]),
                             (''b'', [Num 7, Num 6, Num 5, Num 4])]\<rparr>"
  have h1: "''a'' \<noteq> ''b''" by simp
  have h2: "column ?T ''b'' = None" by code_simp
  have h3: "startdate_of ?log = Some 0" by code_simp
  have h4: "enddate_of ?log = Some 259200" by code_simp
  have h5: "unithistorytable ?log = Some ?TT" by code_simp
  have e1: "column ?T ''a'' = Some [Stock, Num 7]" by code_simp
  have e2: "map (\<lambda>d. case status_on ?H d of None \<Rightarrow> NaN | Some s \<Rightarrow> s) (uht_index ?T)
              = [Num 28, Num 27]" by code_simp
  have e3: "''b'' \<in> unit_id ` set ?log" by simp
  have e4: "filter (\<lambda>e. unit_id e = ''b'') ?log =
      [\<lparr>timestamp = 100, unit_id = ''b'', function_code = 3, topupvalue = PyInt 1\<rparr>]" by simp
  have e5: "column ?TT ''b'' = Some [Num 7, Num 6, Num 5, Num 4]" by code_simp
  from merge_unit_column [where table = ?T and unitID = "''b''" and unithist = ?H and u = "''a''"
      and translog = ?log and startdate = 0 and enddate = 259200 and t = ?TT and u' = "''b''"]
    h1 h2 h3 h4 h5 e1 e2 e3 e4 e5
  show ?thesis by (simp del: set_simps)
qed

text \<open>
  Claim C8. The only state outside its parameters that \<open>unitdailystatus\<close> touches is the
  frame the caller passes: line 143 writes the float cast of the top-up column into it, and
  the function reads no variable of the module.
  \<^item> The returned history is determined by what the function reads of the rows (timestamp,
    function code, float value of the top-up), the two dates, the install date and the
    flag: two frames that agree on these give the same history, whatever else they hold.
  \<^item> A second run on the frame that a first run has left returns the same history and
    leaves the frame as it is; the first run changes nothing of the frame but the top-up
    column, which it replaces by its float cast.
  \<^item> In the table, the column of a unit depends only on the rows of that unit and on the
    two dates of the script: two logs that agree on the rows of the unit and on the start
    and end date give the same column for it, whatever the rows of the other units are.
\<close>

theorem unit_history_independent:
  "(map read_columns unittrans1 = map read_columns unittrans2 \<longrightarrow>
      unitdailystatus unittrans1 startdate enddate installdate flag =
      unitdailystatus unittrans2 startdate enddate installdate flag)
   \<and> (unitdailystatus_call unittrans startdate enddate installdate flag = (unithist, unittrans') \<longrightarrow>
        unitdailystatus_call unittrans' startdate enddate installdate flag = (unithist, unittrans')
        \<and> map timestamp unittrans' = map timestamp unittrans
        \<and> map unit_id unittrans' = map unit_id unittrans
        \<and> map function_code unittrans' = map function_code unittrans
        \<and> map topupvalue unittrans' = map (\<lambda>e. astype_float (topupvalue e)) unittrans)
   \<and> (filter (\<lambda>e. unit_id e = u) log1 = filter (\<lambda>e. unit_id e = u) log2
        \<and> startdate_of log1 = startdate_of log2 \<and> enddate_of log1 = enddate_of log2
        \<and> unithistorytable log1 = Some t1 \<and> unithistorytable log2 = Some t2
      \<longrightarrow> column t1 u = column t2 u)"
proof (intro conjI impI)
  assume "map read_columns unittrans1 = map read_columns unittrans2"
  then have "dailyhistory_of unittrans1 startdate enddate installdate =
             dailyhistory_of unittrans2 startdate enddate installdate"
    by (rule dailyhistory_of_read)
  then show "unitdailystatus unittrans1 startdate enddate installdate flag =
             unitdailystatus unittrans2 startdate enddate installdate flag"
    by (simp add: unitdailystatus_eq)
next
  assume c: "unitdailystatus_call unittrans startdate enddate installdate flag = (unithist, unittrans')"
  then have u: "unittrans' = astype_float_column unittrans"
    and h: "unithist = unitdailystatus unittrans startdate enddate installdate flag"
    by (auto simp: unitdailystatus_call_def unitdailystatus_def Let_def)
  have "unitdailystatus_call unittrans' startdate enddate installdate flag =
        unitdailystatus_call unittrans startdate enddate installdate flag"
    unfolding u by (simp add: unitdailystatus_call_def astype_float_column_idem Let_def)
  with c show "unitdailystatus_call unittrans' startdate enddate installdate flag = (unithist, unittrans')"
    by simp
  show "map timestamp unittrans' = map timestamp unittrans"
    and "map unit_id unittrans' = map unit_id unittrans"
    and "map function_code unittrans' = map function_code unittrans"
    and "map topupvalue unittrans' = map (\<lambda>e. astype_float (topupvalue e)) unittrans"
    unfolding u by (simp_all add: astype_float_column_def o_def)
next
  assume a: "filter (\<lambda>e. unit_id e = u) log1 = filter (\<lambda>e. unit_id e = u) log2
        \<and> startdate_of log1 = startdate_of log2 \<and> enddate_of log1 = enddate_of log2
        \<and> unithistorytable log1 = Some t1 \<and> unithistorytable log2 = Some t2"
  then have f: "filter (\<lambda>e. unit_id e = u) log1 = filter (\<lambda>e. unit_id e = u) log2"
    and s: "startdate_of log1 = startdate_of log2" and e: "enddate_of log1 = enddate_of log2"
    and t1: "unithistorytable log1 = Some t1" and t2: "unithistorytable log2 = Some t2"
    by simp_all
  from t1 obtain sd ed where sd: "startdate_of log1 = Some sd" and ed: "enddate_of log1 = Some ed"
    by (auto simp: unithistorytable_def split: option.splits)
  from f have "set (filter (\<lambda>e. unit_id e = u) log1) = set (filter (\<lambda>e. unit_id e = u) log2)"
    by simp
  then have m: "u \<in> unit_id ` set log1 \<longleftrightarrow> u \<in> unit_id ` set log2" by auto
  from column_of_table [OF sd ed t1, of u] column_of_table [OF _ _ t2, of sd ed u] sd ed s e f m
  show "column t1 u = column t2 u" by simp
qed

theorem unit_history_independent_witness:
  "map read_columns [\<lparr>timestamp = 100, unit_id = ''b'', function_code = 3, topupvalue = PyInt 1\<rparr>]
     = map read_columns [\<lparr>timestamp = 100, unit_id = ''c'', function_code = 3, topupvalue = PyFloat 1\<rparr>]
   \<and> unitdailystatus [\<lparr>timestamp = 100, unit_id = ''b'', function_code = 3, topupvalue = PyInt 1\<rparr>]
        0 172800 None False = [(0, None, Num 7), (86400, None, Num 6), (172800, None, Num 5)]
   \<and> unitdailystatus [\<lparr>timestamp = 100, unit_id = ''c'', function_code = 3, topupvalue = PyFloat 1\<rparr>]
        0 172800 None False = [(0, None, Num 7), (86400, None, Num 6), (172800, None, Num 5)]
   \<and> unitdailystatus_call
        [\<lparr>timestamp = 100, unit_id = ''b'', function_code = 3, topupvalue = PyInt 1\<rparr>]
        0 172800 None False
      = ([(0, None, Num 7), (86400, None, Num 6), (172800, None, Num 5)],
         [\<lparr>timestamp = 100, unit_id = ''b'', function_code = 3, topupvalue = PyFloat 1\<rparr>])
   \<and> unitdailystatus_call
        [\<lparr>timestamp = 100, unit_id = ''b'', function_code = 3, topupvalue = PyFloat 1\<rparr>]
        0 172800 None False
      = ([(0, None, Num 7), (86400, None, Num 6), (172800, None, Num 5)],
         [\<lparr>timestamp = 100, unit_id = ''b'', function_code = 3, topupvalue = PyFloat 1\<rparr>])
   \<and> unithistorytable
        [\<lparr>timestamp = 100, unit_id = ''b'', function_code = 3, topupvalue = PyInt 1\<rparr>,
         \<lparr>timestamp = 172900, unit_id = ''a'', function_code = 4, topupvalue = PyInt 4\<rparr>]
      = Some \<lparr>uht_index = [0, 86400, 172800, 259200],
              uht_columns = [(''a'', [Stock, Stock, Num 28, Num 27]),
                             (''b'', [Num 7, Num 6, Num 5, Num 4])]\<rparr>
   \<and> unithistorytable
        [\<lparr>timestamp = 100, unit_id = ''b'', function_code = 3, topupvalue = PyInt 1\<rparr>,
         \<lparr>timestamp = 90000, unit_id = ''a'', function_code = 5, topupvalue = PyNone\<rparr>,
         \<lparr>timestamp = 172900, unit_id = ''a'', function_code = 3, topupvalue = PyInt 1\<rparr>]
      = Some \<lparr>uht_index = [0, 86400, 172800, 259200],
              uht_columns = [(''a'', [Stock, Unlocked, Unlocked, Unlocked]),
                             (''b'', [Num 7, Num 6, Num 5, Num 4])]\<rparr>
   \<and> column \<lparr>uht_index = [0, 86400, 172800, 259200],
              uht_columns = [(''a'', [Stock, Stock, Num 28, Num 27]),
                             (''b'', [Num 7, Num 6, Num 5, Num 4])]\<rparr> ''b''
     = column \<lparr>uht_index = [0, 86400, 172800, 259200],
              uht_columns = [(''a'', [Stock, Unlocked, Unlocked, Unlocked]),
                             (''b'', [Num 7, Num 6, Num 5, Num 4])]\<rparr> ''b''"
proof -
  let ?b = "[\<lparr>timestamp = 100, unit_id = ''b'', function_code = 3, topupvalue = PyInt 1\<rparr>]"
  let ?c = "[\<lparr>timestamp = 100, unit_id = ''c'', function_code = 3, topupvalue = PyFloat 1\<rparr>]"
  let ?b' = "[\<lparr>timestamp = 100, unit_id = ''b'', function_code = 3, topupvalue = PyFloat 1\<rparr>]"
  let ?h = "[(0, None, Num 7), (86400, None, Num 6), (172800, None, Num 5)]
              :: (datetime \<times> rat option \<times> status) list"
  let ?log1 = "[\<lparr>timestamp = 100, unit_id = ''b'', function_code = 3, topupvalue = PyInt 1\<rparr>,
         \<lparr>timestamp = 172900, unit_id = ''a'', function_code = 4, topupvalue = PyInt 4\<rparr>]"
  let ?log2 = "[\<lparr>timestamp = 100, unit_id = ''b'', function_code = 3, topupvalue = PyInt 1\<rparr>,
         \<lparr>timestamp = 90000, unit_id = ''a'', function_code = 5, topupvalue = PyNone\<rparr>,
         \<lparr>timestamp = 172900, unit_id = ''a'', function_code = 3, topupvalue = PyInt 1\<rparr>]"
  let ?t1 = "\<lparr>uht_index = [0, 86400, 172800, 259200],
              uht_columns = [(''a'', [Stock, Stock, Num 28, Num 27]),
                             (''b'', [Num 7, Num 6, Num 5, Num 4])]\<rparr>"
  let ?t2 = "\<lparr>uht_index = [0, 86400, 172800, 259200],
              uht_columns = [(''a'', [Stock, Unlocked, Unlocked, Unlocked]),
                             (''b'', [Num 7, Num 6, Num 5, Num 4])]\<rparr>"
  have r: "map read_columns ?b = map read_columns ?c" by (simp add: read_columns_def)
  have hb: "unitdailystatus ?b 0 172800 None False = ?h" by code_simp
  have cb: "unitdailystatus_call ?b 0 172800 None False = (?h, ?b')" by code_simp
  have f: "filter (\<lambda>e. unit_id e = ''b'') ?log1 = filter (\<lambda>e. unit_id e = ''b'') ?log2" by simp
  have s: "startdate_of ?log1 = startdate_of ?log2" by code_simp
  have e: "enddate_of ?log1 = enddate_of ?log2" by code_simp
  have t1: "unithistorytable ?log1 = Some ?t1" by code_simp
  have t2: "unithistorytable ?log2 = Some ?t2" by code_simp
  from unit_history_independent [where ?unittrans1.0 = ?b and ?unittrans2.0 = ?c
      and startdate = 0 and enddate = 172800 and installdate = None and flag = False
      and unittrans = ?b and unithist = ?h and unittrans' = ?b'
      and u = "''b''" and ?log1.0 = ?log1 and ?log2.0 = ?log2 and ?t1.0 = ?t1 and ?t2.0 = ?t2]
    r hb cb f s e t1 t2
  show ?thesis by simp
qed

section \<open>Later unlock rows, for rows in timestamp order\<close>

lemma unlocks_drop_later: "unlocks (drop_later_unlocks evs) = take 1 (unlocks evs)"
proof (induction evs)
  case Nil
  show ?case by (simp add: unlocks_def)
next
  case (Cons e es)
  have "filter (\<lambda>x. function_code x = 5) (filter (\<lambda>x. function_code x \<noteq> 5) es) = []"
    by (simp add: filter_empty_conv)
  with Cons show ?case by (simp add: unlocks_def)
qed

lemma drop_later_no_unlock: "unlocks evs = [] \<Longrightarrow> drop_later_unlocks evs = evs"
  by (induction evs) (simp_all add: unlocks_def split: if_splits)

lemma hd_drop_later: "hd (drop_later_unlocks evs) = hd evs"
  by (cases evs) simp_all

lemma drop_later_Nil_iff: "drop_later_unlocks evs = [] \<longleftrightarrow> evs = []"
  by (cases evs) simp_all

lemma set_drop_later: "set (drop_later_unlocks evs) \<subseteq> set evs"
  by (induction evs) auto

lemma sorted_drop_later:
  "sorted (map timestamp evs) \<Longrightarrow> sorted (map timestamp (drop_later_unlocks evs))"
proof (induction evs)
  case Nil
  show ?case by simp
next
  case (Cons e es)
  then have "sorted (map timestamp es)" and le: "\<forall>x \<in> set es. timestamp e \<le> timestamp x"
    by simp_all
  then have "sorted (map timestamp (drop_later_unlocks es))"
    and "sorted (map timestamp (filter (\<lambda>x. function_code x \<noteq> 5) es))"
    by (simp_all add: Cons.IH sorted_filter)
  with le set_drop_later [of es] show ?case by auto
qed

lemma filter_day_drop_later:
  assumes "sorted (map timestamp evs)" and "unlocks evs \<noteq> []"
      and "d < dayofdatetime (timestamp (hd (unlocks evs))) False"
  shows "filter (\<lambda>e. dayofdatetime (timestamp e) False = d) (drop_later_unlocks evs) =
         filter (\<lambda>e. dayofdatetime (timestamp e) False = d) evs"
  using assms
proof (induction evs)
  case Nil
  then show ?case by simp
next
  case (Cons e es)
  show ?case
  proof (cases "function_code e = 5")
    case True
    with Cons.prems have d: "d < dayofdatetime (timestamp e) False" by (simp add: unlocks_def)
    have "\<forall>x \<in> set es. dayofdatetime (timestamp x) False \<noteq> d"
    proof
      fix x assume "x \<in> set es"
      with Cons.prems(1) have "timestamp e \<le> timestamp x" by simp
      then have "dayofdatetime (timestamp e) False \<le> dayofdatetime (timestamp x) False"
        by (rule dayofdatetime_mono)
      with d show "dayofdatetime (timestamp x) False \<noteq> d" by linarith
    qed
    then have "filter (\<lambda>e. dayofdatetime (timestamp e) False = d) es = []"
      and "filter (\<lambda>e. dayofdatetime (timestamp e) False = d) (filter (\<lambda>x. function_code x \<noteq> 5) es) = []"
      by (simp_all add: filter_empty_conv)
    with True show ?thesis by simp
  next
    case False
    with Cons.prems have "sorted (map timestamp es)" "unlocks es \<noteq> []"
      "d < dayofdatetime (timestamp (hd (unlocks es))) False"
      by (simp_all add: unlocks_def)
    then have "filter (\<lambda>e. dayofdatetime (timestamp e) False = d) (drop_later_unlocks es) =
         filter (\<lambda>e. dayofdatetime (timestamp e) False = d) es" by (rule Cons.IH)
    with False show ?thesis by simp
  qed
qed

lemma day_sum_drop_later:
  assumes "sorted (map timestamp evs)" and "d < loop_unlockdate evs enddate"
  shows "day_sum (drop_later_unlocks evs) d = day_sum evs d"
proof (cases "unlocks evs = []")
  case True
  then show ?thesis by (simp add: drop_later_no_unlock)
next
  case False
  with assms(2) have "d < dayofdatetime (timestamp (hd (unlocks evs))) False"
    by (simp add: loop_unlockdate_def)
  from filter_day_drop_later [OF assms(1) False this] show ?thesis by (simp add: day_sum_def)
qed

lemma loop_unlockdate_drop_later:
  "loop_unlockdate (drop_later_unlocks evs) enddate = loop_unlockdate evs enddate"
  by (cases "unlocks evs") (simp_all add: loop_unlockdate_def unlocks_drop_later)

lemma sorted_index_min:
  assumes "sorted xs" shows "index_min xs = (if xs = [] then None else Some (hd xs))"
  using assms hd_sorted_Min [of xs] by (simp add: index_min_def)

lemma unlock_min_drop_later:
  assumes "sorted (map timestamp evs)"
  shows "index_min (map timestamp (unlocks (drop_later_unlocks evs))) =
         index_min (map timestamp (unlocks evs))"
proof -
  from assms have s: "sorted (map timestamp (unlocks evs))"
    unfolding unlocks_def by (rule sorted_filter)
  then have "sorted (map timestamp (take 1 (unlocks evs)))"
    by (cases "unlocks evs") simp_all
  with s show ?thesis
    by (cases "unlocks evs") (simp_all add: sorted_index_min unlocks_drop_later)
qed

lemma install_date_drop_later:
  assumes "sorted (map timestamp evs)"
  shows "install_date (drop_later_unlocks evs) installdate = install_date evs installdate"
proof (cases installdate)
  case (Some i)
  then show ?thesis by (simp add: install_date_def)
next
  case None
  show ?thesis
  proof (cases "evs = []")
    case True
    then show ?thesis by simp
  next
    case False
    then have ne: "drop_later_unlocks evs \<noteq> []" by (simp add: drop_later_Nil_iff)
    from assms False have "Min (set (map timestamp evs)) = timestamp (hd evs)"
      using hd_sorted_Min [of "map timestamp evs"] by (simp add: hd_map)
    moreover from sorted_drop_later [OF assms] ne
    have "Min (set (map timestamp (drop_later_unlocks evs))) = timestamp (hd evs)"
      using hd_sorted_Min [of "map timestamp (drop_later_unlocks evs)"]
      by (simp add: hd_map hd_drop_later)
    ultimately show ?thesis
      unfolding None install_date_default [OF False] install_date_default [OF ne] by simp
  qed
qed

lemma loop_mask_drop_later:
  assumes "sorted (map timestamp evs)"
  shows "loop_mask (drop_later_unlocks evs) enddate installdate d = loop_mask evs enddate installdate d"
  by (simp add: loop_mask_def install_date_drop_later [OF assms] loop_unlockdate_drop_later)

lemma counters_before_drop_later:
  assumes "sorted (map timestamp evs)"
  shows "counters_before (drop_later_unlocks evs) startdate enddate installdate j =
         counters_before evs startdate enddate installdate j"
proof (induction j)
  case 0
  show ?case by (simp add: counters_before_def)
next
  case (Suc j)
  show ?case
  proof (cases "j < length (date_range startdate enddate)")
    case True
    show ?thesis
    proof (cases "loop_mask evs enddate installdate (date_range startdate enddate ! j)")
      case True
      then have "date_range startdate enddate ! j < loop_unlockdate evs enddate"
        by (simp add: loop_mask_def)
      from day_sum_drop_later [OF assms this] True Suc \<open>j < length (date_range startdate enddate)\<close>
      show ?thesis by (simp add: counters_before_Suc loop_mask_drop_later [OF assms])
    next
      case False
      with Suc \<open>j < length (date_range startdate enddate)\<close>
      show ?thesis by (simp add: counters_before_Suc loop_mask_drop_later [OF assms])
    qed
  next
    case False
    with Suc show ?thesis by (simp add: counters_before_past_end)
  qed
qed

text \<open>When the rows are in timestamp order, the unlock rows after the first change no
  status.\<close>
lemma later_unlocks_no_effect_in_timestamp_order:
  assumes "sorted (map timestamp unittrans)"
  shows "map (snd \<circ> snd) (unitdailystatus (drop_later_unlocks unittrans) startdate enddate installdate flag) =
         map (snd \<circ> snd) (unitdailystatus unittrans startdate enddate installdate flag)"
  unfolding map_status_unitdailystatus
proof (rule nth_equalityI)
  show "length (map unitstatus (dailyhistory_of (drop_later_unlocks unittrans) startdate enddate installdate)) =
        length (map unitstatus (dailyhistory_of unittrans startdate enddate installdate))"
    by (simp add: length_dailyhistory_of)
next
  fix j
  assume "j < length (map unitstatus (dailyhistory_of (drop_later_unlocks unittrans) startdate enddate installdate))"
  then have j: "j < length (date_range startdate enddate)" by (simp add: length_dailyhistory_of)
  let ?d = "date_range startdate enddate ! j"
  have u: "unlocks (drop_later_unlocks unittrans) \<noteq> [] \<longleftrightarrow> unlocks unittrans \<noteq> []"
    by (cases "unlocks unittrans") (simp_all add: unlocks_drop_later)
  have ds: "day_sum (drop_later_unlocks unittrans) ?d = day_sum unittrans ?d"
    if "loop_mask unittrans enddate installdate ?d"
    using that day_sum_drop_later [OF assms, of ?d enddate] by (simp add: loop_mask_def)
  have "unitstatus (dailyhistory_of (drop_later_unlocks unittrans) startdate enddate installdate ! j) =
        unitstatus (dailyhistory_of unittrans startdate enddate installdate ! j)"
    using ds u
    by (simp add: dailyhistory_of_nth [OF j] unlock_min_drop_later [OF assms]
          loop_mask_drop_later [OF assms] counters_before_drop_later [OF assms]
          loop_unlockdate_drop_later install_date_drop_later [OF assms])
  with j show "map unitstatus (dailyhistory_of (drop_later_unlocks unittrans) startdate enddate installdate) ! j =
      map unitstatus (dailyhistory_of unittrans startdate enddate installdate) ! j"
    by (simp add: length_dailyhistory_of)
qed

end
